theory Spec2Isabelle
  imports Complex_Main
begin

section \<open>Text and numbers of the browser code\<close>

text \<open>
  The sources are \<^verbatim>\<open>fileUpload.js\<close> (upload streams, search display) and
  \<^verbatim>\<open>resultRenderer.js\<close> (chat history). A JavaScript string is a \<^typ>\<open>string\<close>, one
  \<^typ>\<open>char\<close> per code unit (code units above 255 are not represented). A JavaScript
  number is an exact \<^typ>\<open>rat\<close>: the rounding of IEEE doubles is not part of the model.
\<close>

definition startsWith :: "string \<Rightarrow> string \<Rightarrow> bool" where
  "startsWith s p \<longleftrightarrow> take (length p) s = p"

text \<open>\<^verbatim>\<open>s.split('\n')\<close>: the pieces between newlines, the last piece included.\<close>

fun split_acc :: "string \<Rightarrow> string \<Rightarrow> string list" where
  "split_acc cur [] = [cur]"
| "split_acc cur (c # cs) =
     (if c = CHR 0x0A then cur # split_acc [] cs else split_acc (cur @ [c]) cs)"

definition split_newline :: "string \<Rightarrow> string list" where
  "split_newline s = split_acc [] s"

text \<open>
  White space of \<^verbatim>\<open>trim()\<close> and of the pattern \<^verbatim>\<open>\s\<close>: tab, line feed, vertical tab,
  form feed, carriage return, space and no-break space.
\<close>

definition is_space :: "char \<Rightarrow> bool" where
  "is_space c \<longleftrightarrow> c \<in> {CHR 0x09, CHR 0x0A, CHR 0x0B, CHR 0x0C, CHR 0x0D, CHR 0x20, CHR 0xA0}"

definition trim :: "string \<Rightarrow> string" where
  "trim s = rev (dropWhile is_space (rev (dropWhile is_space s)))"

text \<open>\<^verbatim>\<open>s.split(/\s+/)\<close>: every maximal run of white space is one separator.\<close>

function split_spaces_acc :: "string \<Rightarrow> string \<Rightarrow> string list" where
  "split_spaces_acc cur [] = [cur]"
| "split_spaces_acc cur (c # cs) =
     (if is_space c then cur # split_spaces_acc [] (dropWhile is_space cs)
      else split_spaces_acc (cur @ [c]) cs)"
  by pat_completeness auto
termination
  by (relation "measure (\<lambda>(cur, rest). length rest)")
     (auto simp: less_Suc_eq_le length_dropWhile_le)

definition split_spaces :: "string \<Rightarrow> string list" where
  "split_spaces s = split_spaces_acc [] s"

section \<open>Stream events\<close>

text \<open>
  The value of the field \<^verbatim>\<open>keywords\<close> of an event: an array, or any other JSON value, of
  which only the truth value matters (a string that is not empty, a number that is not zero,
  an object and \<^verbatim>\<open>true\<close> are truthy).
\<close>

datatype keywords_value = Keyword_array "string list" | Not_an_array bool

text \<open>
  One decoded line of the response. The fields are the ones the handlers read:
  \<^verbatim>\<open>type\<close>, \<^verbatim>\<open>percent\<close> (a number), \<^verbatim>\<open>stage\<close>, \<^verbatim>\<open>detail\<close>, \<^verbatim>\<open>document_id\<close>,
  \<^verbatim>\<open>caption\<close>, \<^verbatim>\<open>ocr_text\<close> (strings) and \<^verbatim>\<open>keywords\<close>; a field that is absent is
  \<^const>\<open>None\<close>. Every other field of the open record is kept, by name, in \<open>extra\<close>.
  Numbers and strings of other JSON types in these fields are outside the model.
\<close>

record stream_event =
  etype :: "string option"
  percent :: "rat option"
  stage :: "string option"
  detail :: "string option"
  document_id :: "string option"
  caption :: "string option"
  ocr_text :: "string option"
  keywords_field :: "keywords_value option"
  extra :: "(string \<times> string) list"

text \<open>
  What \<^verbatim>\<open>JSON.parse\<close> returns: \<^verbatim>\<open>null\<close>, on which reading \<^verbatim>\<open>data.type\<close> raises a
  TypeError, or any other value, seen through the fields above (a number, a string or an array
  has none of them).
\<close>

datatype json_value = JNull | JValue stream_event

text \<open>A string in a condition: absent and empty strings are falsy.\<close>

definition truthy :: "string option \<Rightarrow> bool" where
  "truthy v \<longleftrightarrow> (case v of None \<Rightarrow> False | Some s \<Rightarrow> s \<noteq> [])"

text \<open>\<^verbatim>\<open>a || b\<close> on an optional string and a default.\<close>

definition or_else :: "string option \<Rightarrow> string \<Rightarrow> string" where
  "or_else v d = (if truthy v then the v else d)"

text \<open>What assigning an optional string to \<^verbatim>\<open>textContent\<close> displays: nothing when absent.\<close>

definition text_of :: "string option \<Rightarrow> string" where
  "text_of v = (case v of None \<Rightarrow> [] | Some s \<Rightarrow> s)"

section \<open>The pending operation\<close>

text \<open>
  The promise returned by \<^verbatim>\<open>uploadImageWithStreaming\<close> and \<^verbatim>\<open>uploadPdfWithStreaming\<close>.
  A rejection carries a message, or the status line of \<^verbatim>\<open>HTTP ${status}: ${statusText}\<close>.
  A promise that is settled ignores every later call of \<^verbatim>\<open>resolve\<close> and \<^verbatim>\<open>reject\<close>.
\<close>

datatype reason = Message string | HttpStatus nat string

datatype promise = Pending | Fulfilled stream_event | Rejected reason

fun resolve :: "stream_event \<Rightarrow> promise \<Rightarrow> promise" where
  "resolve v Pending = Fulfilled v"
| "resolve v p = p"

fun reject :: "reason \<Rightarrow> promise \<Rightarrow> promise" where
  "reject r Pending = Rejected r"
| "reject r p = p"

section \<open>State of one upload\<close>

text \<open>
  \<^verbatim>\<open>data.keywords ? data.keywords.join(', ') : 'None'\<close> raises a TypeError when the value is
  truthy and has no method \<^verbatim>\<open>join\<close>, that is, when it is not an array.
\<close>

definition keywords_join_raises :: "keywords_value option \<Rightarrow> bool" where
  "keywords_join_raises k =
     (case k of
        None \<Rightarrow> False
      | Some (Keyword_array ws) \<Rightarrow> False
      | Some (Not_an_array is_truthy) \<Rightarrow> is_truthy)"

text \<open>
  \<^verbatim>\<open>displayUploadResults\<close> fills the \<^verbatim>\<open>.upload-results\<close> element from one of two templates,
  chosen by \<^verbatim>\<open>data.document_id\<close>; the result is \<^const>\<open>None\<close> when building the template
  raises. The HTML text is not modelled. \<^verbatim>\<open>Utils.escapeHtml\<close>, which the image template
  calls on the caption and on an OCR text that is truthy, is not among the sources: it is
  the parameter \<open>escapeHtml\<close>, from the text it is given (absent when the field is) to the
  escaped text, or to \<^const>\<open>None\<close> when it raises.
\<close>

datatype upload_results = PdfResults stream_event | ImageResults stream_event

definition displayUploadResults ::
  "(string option \<Rightarrow> string option) \<Rightarrow> stream_event \<Rightarrow> upload_results option" where
  "displayUploadResults escapeHtml data =
     (if truthy (document_id data) then
        if keywords_join_raises (keywords_field data) then None else Some (PdfResults data)
      else if escapeHtml (caption data) = None then None
      else if truthy (ocr_text data) \<and> escapeHtml (ocr_text data) = None then None
      else if keywords_join_raises (keywords_field data) then None
      else Some (ImageResults data))"

text \<open>
  The variables of the closure (\<open>buffer\<close>, \<open>captionBuffer\<close>, \<open>jsonBuffer\<close>), the parts of
  the file item that the handlers write, the promise, and the number of \<^verbatim>\<open>console.error\<close>
  calls. \<open>width\<close> is the number before the percent sign of \<^verbatim>\<open>progressFill.style.width\<close>.
\<close>

record upload_state =
  buffer :: string
  captionBuffer :: string
  jsonBuffer :: string
  width :: rat
  statusText :: string
  statusColor :: string
  uploadResults :: "upload_results option"
  streamingJson :: "string option"
  promise :: promise
  console_errors :: nat

definition initial_state :: upload_state where
  "initial_state =
     \<lparr>buffer = [], captionBuffer = [], jsonBuffer = [], width = 0,
      statusText = ''Pending...'', statusColor = [], uploadResults = None,
      streamingJson = None, promise = Pending, console_errors = 0\<rparr>"

text \<open>
  \<^verbatim>\<open>progressFill.style.width = x + '%'\<close>. The style keeps its value when the text is not a
  width: when \<open>x\<close> is not a number (a percent that is absent), or is negative.
\<close>

definition set_width :: "rat option \<Rightarrow> upload_state \<Rightarrow> upload_state" where
  "set_width x st =
     (case x of None \<Rightarrow> st | Some w \<Rightarrow> if w < 0 then st else st\<lparr>width := w\<rparr>)"

definition console_error :: "upload_state \<Rightarrow> upload_state" where
  "console_error st = st\<lparr>console_errors := Suc (console_errors st)\<rparr>"

text \<open>
  The branch of a \<^verbatim>\<open>complete\<close> event, the same in both upload functions (lines 208 to 211
  and 318 to 321). \<^verbatim>\<open>displayUploadResults\<close> removes the results shown before and runs
  before \<^verbatim>\<open>resolve\<close>, inside the \<^verbatim>\<open>try\<close>: when it raises, the \<^verbatim>\<open>catch\<close> logs and
  \<^verbatim>\<open>resolve\<close> is not called.
\<close>

definition complete_event ::
  "(string option \<Rightarrow> string option) \<Rightarrow> stream_event \<Rightarrow> upload_state \<Rightarrow> upload_state" where
  "complete_event escapeHtml data st =
     (let shown = st\<lparr>width := 100, statusText := ''Upload complete!'', uploadResults := None\<rparr>
      in case displayUploadResults escapeHtml data of
           None \<Rightarrow> console_error shown
         | Some results \<Rightarrow>
             shown\<lparr>uploadResults := Some results, promise := resolve data (promise st)\<rparr>)"

section \<open>Image upload: the handler of one event\<close>

definition image_total_progress :: "rat \<Rightarrow> rat" where
  "image_total_progress p = 20 + p * (8 / 10)"

definition wordCount :: "string \<Rightarrow> nat" where
  "wordCount captionBuf = length (split_spaces (trim captionBuf))"

definition captionProgress :: "string \<Rightarrow> rat" where
  "captionProgress captionBuf = min (of_nat (wordCount captionBuf) / 30) 1"

definition caption_total_progress :: "string \<Rightarrow> rat" where
  "caption_total_progress captionBuf =
     20 + 30 * (8 / 10) + captionProgress captionBuf * 30 * (8 / 10)"

text \<open>Line 185: the first assignment of a progress event.\<close>

definition image_progress_base :: "stream_event \<Rightarrow> upload_state \<Rightarrow> upload_state" where
  "image_progress_base data st = set_width (map_option image_total_progress (percent data)) st"

text \<open>Lines 187 to 206: the three cases of \<^verbatim>\<open>data.stage\<close>.\<close>

definition image_progress_stage :: "stream_event \<Rightarrow> upload_state \<Rightarrow> upload_state" where
  "image_progress_stage data st =
     (if truthy (stage data) \<and> startsWith (the (stage data)) ''CAPTION_CHUNK:'' then
        let captionChunk = drop (length ''CAPTION_CHUNK:'') (the (stage data));
            captionBuf = captionBuffer st @ captionChunk
        in set_width (Some (caption_total_progress captionBuf))
             (st\<lparr>captionBuffer := captionBuf, statusText := captionBuf,
                 statusColor := ''#10b981''\<rparr>)
      else if truthy (stage data) \<and> startsWith (the (stage data)) ''OCR_TEXT:'' then
        let ocrText = drop (length ''OCR_TEXT:'') (the (stage data))
        in st\<lparr>statusText := ''OCR Text: '' @ ocrText, statusColor := ''#3b82f6''\<rparr>
      else st\<lparr>statusText := text_of (stage data), statusColor := []\<rparr>)"

definition handle_image_event ::
  "(string option \<Rightarrow> string option) \<Rightarrow> json_value \<Rightarrow> upload_state \<Rightarrow> upload_state" where
  "handle_image_event escapeHtml d st =
     (case d of
        JNull \<Rightarrow> console_error st
      | JValue data \<Rightarrow>
          if etype data = Some ''progress'' then
            image_progress_stage data (image_progress_base data st)
          else if etype data = Some ''complete'' then complete_event escapeHtml data st
          else if etype data = Some ''error'' then
            st\<lparr>promise := reject (Message (or_else (detail data) ''Upload failed'')) (promise st)\<rparr>
          else st)"

section \<open>PDF upload: the partial-JSON pane and the handler of one event\<close>

definition streaming_marker :: string where
  "streaming_marker = [CHR 0x0A, CHR 0x0A] @ ''... (streaming)''"

text \<open>
  The loop of \<^verbatim>\<open>displayStreamingJsonChunk\<close> over \<^verbatim>\<open>chunk\<close>, from index \<open>i\<close>: the two
  counters and the index of the last closing character at which both are zero.
\<close>

fun scan_chunk :: "string \<Rightarrow> int \<Rightarrow> int \<Rightarrow> int \<Rightarrow> int \<Rightarrow> int" where
  "scan_chunk [] i braceCount bracketCount lastCompleteIndex = lastCompleteIndex"
| "scan_chunk (c # cs) i braceCount bracketCount lastCompleteIndex =
     (let (braces, brackets) =
            (if c = CHR ''{'' then (braceCount + 1, bracketCount)
             else if c = CHR ''}'' then (braceCount - 1, bracketCount)
             else if c = CHR ''['' then (braceCount, bracketCount + 1)
             else if c = CHR '']'' then (braceCount, bracketCount - 1)
             else (braceCount, bracketCount))
      in scan_chunk cs (i + 1) braces brackets
           (if braces = 0 \<and> brackets = 0 \<and> (c = CHR ''}'' \<or> c = CHR '']'')
            then i else lastCompleteIndex))"

definition lastCompleteIndex :: "string \<Rightarrow> int" where
  "lastCompleteIndex chunk = scan_chunk chunk 0 0 0 (- 1)"

text \<open>
  The text shown in the \<^verbatim>\<open>.streaming-json\<close> pane. \<open>reformat s\<close> stands for
  \<^verbatim>\<open>JSON.stringify(JSON.parse(s), null, 2)\<close>, and is \<^const>\<open>None\<close> when \<^verbatim>\<open>JSON.parse\<close>
  raises. The third parameter is received and never read, as in the source.
\<close>

definition displayStreamingJsonChunk ::
  "(string \<Rightarrow> string option) \<Rightarrow> string \<Rightarrow> string \<Rightarrow> string" where
  "displayStreamingJsonChunk reformat chunk jsonBuf =
     (case reformat chunk of
        Some pretty \<Rightarrow> pretty
      | None \<Rightarrow>
          if lastCompleteIndex chunk > 0 then
            let cleanContent = take (nat (lastCompleteIndex chunk + 1)) chunk
            in (case reformat cleanContent of Some pretty \<Rightarrow> pretty | None \<Rightarrow> cleanContent)
               @ (if length cleanContent < length chunk then streaming_marker else [])
          else chunk @ streaming_marker)"

definition jsonProgress :: "string \<Rightarrow> rat" where
  "jsonProgress jsonBuf = min (of_nat (length jsonBuf) / 2000) 1"

definition json_total_progress :: "string \<Rightarrow> rat" where
  "json_total_progress jsonBuf = 20 + 30 + jsonProgress jsonBuf * 40"

text \<open>The nine stage texts that the PDF handler shows as they are.\<close>

definition pdf_status_stages :: "string list" where
  "pdf_status_stages =
     [''Extracting text from PDF'', ''Text extraction complete'',
      ''Structuring text with LLM'', ''Generating keywords'', ''Keywords generated'',
      ''Generating vector embeddings'', ''Vector embeddings generated'',
      ''Saving to database'', ''PDF processing complete'']"

text \<open>The body shared by the two branches that append to \<open>jsonBuffer\<close> (lines 281 to 292 and 303 to 312).\<close>

definition append_structured ::
  "(string \<Rightarrow> string option) \<Rightarrow> string \<Rightarrow> upload_state \<Rightarrow> upload_state" where
  "append_structured reformat jsonChunk st =
     (let jsonBuf = jsonBuffer st @ jsonChunk
      in set_width (Some (json_total_progress jsonBuf))
           (st\<lparr>jsonBuffer := jsonBuf,
               streamingJson := Some (displayStreamingJsonChunk reformat jsonChunk jsonBuf),
               statusText := ''Structuring document...'', statusColor := ''#10b981''\<rparr>))"

definition pdf_progress_stage ::
  "(string \<Rightarrow> string option) \<Rightarrow> stream_event \<Rightarrow> upload_state \<Rightarrow> upload_state" where
  "pdf_progress_stage reformat data st =
     (if truthy (stage data) \<and> startsWith (the (stage data)) ''STRUCTURED_CHUNK:'' then
        append_structured reformat (drop (length ''STRUCTURED_CHUNK:'') (the (stage data))) st
      else if truthy (stage data) \<and> the (stage data) \<notin> set pdf_status_stages then
        append_structured reformat (the (stage data)) st
      else st\<lparr>statusText := text_of (stage data), statusColor := []\<rparr>)"

definition handle_pdf_event ::
  "(string option \<Rightarrow> string option) \<Rightarrow> (string \<Rightarrow> string option) \<Rightarrow>
   json_value \<Rightarrow> upload_state \<Rightarrow> upload_state" where
  "handle_pdf_event escapeHtml reformat d st =
     (case d of
        JNull \<Rightarrow> console_error st
      | JValue data \<Rightarrow>
          if etype data = Some ''progress'' then
            pdf_progress_stage reformat data (set_width (percent data) st)
          else if etype data = Some ''complete'' then complete_event escapeHtml data st
          else if etype data = Some ''error'' then
            st\<lparr>promise := reject (Message (or_else (detail data) ''Upload failed'')) (promise st)\<rparr>
          else st)"

section \<open>The stream decoder\<close>

text \<open>
  The body of the \<^verbatim>\<open>readystatechange\<close> listener, the same in both upload functions.
  \<open>parse\<close> stands for \<^verbatim>\<open>JSON.parse\<close> on a line's payload (\<^const>\<open>None\<close> when it raises),
  \<open>handle\<close> for the chain of cases on \<^verbatim>\<open>data.type\<close>. The \<^verbatim>\<open>catch\<close> only logs.
\<close>

definition process_line ::
  "(string \<Rightarrow> json_value option) \<Rightarrow> (json_value \<Rightarrow> upload_state \<Rightarrow> upload_state) \<Rightarrow>
   string \<Rightarrow> upload_state \<Rightarrow> upload_state" where
  "process_line parse handle line st =
     (if startsWith line ''data: '' then
        (case parse (drop 6 line) of
           None \<Rightarrow> console_error st
         | Some d \<Rightarrow> handle d st)
      else st)"

definition on_readystatechange ::
  "(string \<Rightarrow> json_value option) \<Rightarrow> (json_value \<Rightarrow> upload_state \<Rightarrow> upload_state) \<Rightarrow>
   nat \<Rightarrow> string \<Rightarrow> upload_state \<Rightarrow> upload_state" where
  "on_readystatechange parse handle readyState responseText st =
     (if readyState = 3 \<or> readyState = 4 then
        let newData = drop (length (buffer st)) responseText
        in fold (process_line parse handle) (split_newline newData)
             (st\<lparr>buffer := responseText\<rparr>)
      else st)"

text \<open>The events of the request that have a listener, and the listeners.\<close>

datatype xhr_event =
    ReadyStateChange nat string
  | Load nat string
  | NetworkError
  | Abort

fun xhr_listener ::
  "(string \<Rightarrow> json_value option) \<Rightarrow> (json_value \<Rightarrow> upload_state \<Rightarrow> upload_state) \<Rightarrow>
   xhr_event \<Rightarrow> upload_state \<Rightarrow> upload_state" where
  "xhr_listener parse handle (ReadyStateChange readyState responseText) st =
     on_readystatechange parse handle readyState responseText st"
| "xhr_listener parse handle (Load status statusLine) st =
     (if status \<noteq> 200 then st\<lparr>promise := reject (HttpStatus status statusLine) (promise st)\<rparr>
      else st)"
| "xhr_listener parse handle NetworkError st =
     st\<lparr>promise := reject (Message ''Network error'') (promise st)\<rparr>"
| "xhr_listener parse handle Abort st =
     st\<lparr>promise := reject (Message ''Upload cancelled'') (promise st)\<rparr>"

definition uploadImageWithStreaming ::
  "(string \<Rightarrow> json_value option) \<Rightarrow> (string option \<Rightarrow> string option) \<Rightarrow>
   xhr_event list \<Rightarrow> upload_state" where
  "uploadImageWithStreaming parse escapeHtml evs =
     fold (xhr_listener parse (handle_image_event escapeHtml)) evs initial_state"

definition uploadPdfWithStreaming ::
  "(string \<Rightarrow> json_value option) \<Rightarrow> (string option \<Rightarrow> string option) \<Rightarrow>
   (string \<Rightarrow> string option) \<Rightarrow> xhr_event list \<Rightarrow> upload_state" where
  "uploadPdfWithStreaming parse escapeHtml reformat evs =
     fold (xhr_listener parse (handle_pdf_event escapeHtml reformat)) evs initial_state"

text \<open>
  The response texts that the listener sees when the body arrives as the chunks \<open>cs\<close>
  after \<open>seen\<close>: each notification exposes the whole text received so far.
\<close>

fun deliveries :: "string \<Rightarrow> string list \<Rightarrow> string list" where
  "deliveries seen [] = []"
| "deliveries seen (c # cs) = (seen @ c) # deliveries (seen @ c) cs"

text \<open>One line of the stream: the prefix, the payload and the newline.\<close>

definition data_line :: "string \<Rightarrow> string" where
  "data_line payload = ''data: '' @ payload @ [CHR 0x0A]"

section \<open>Search results and chat history\<close>

text \<open>
  \<^verbatim>\<open>SearchManager.displaySearchResults\<close>: the global \<^verbatim>\<open>window.currentSearchResults\<close>
  (\<^const>\<open>None\<close> while it is undefined) and what the results pane shows. The type of one
  result stays open.
\<close>

datatype 'r results_pane = Empty_pane | Searching | No_results | Result_items "'r list" | Search_failed

record 'r window_state =
  currentSearchResults :: "'r list option"
  searchResults :: "'r results_pane"

definition displaySearchResults :: "'r list \<Rightarrow> 'r window_state \<Rightarrow> 'r window_state" where
  "displaySearchResults results w =
     (if results = [] then w\<lparr>searchResults := No_results\<rparr>
      else w\<lparr>currentSearchResults := Some results, searchResults := Result_items results\<rparr>)"

text \<open>
  \<^verbatim>\<open>performSearch\<close> with the outcome of the request: an exception (network failure, a status
  that is not OK, a body that is not JSON), or the parsed array.
\<close>

datatype 'r search_response = Search_error | Search_data "'r list"

definition performSearch ::
  "string \<Rightarrow> 'r search_response \<Rightarrow> 'r window_state \<Rightarrow> 'r window_state" where
  "performSearch input response w =
     (if trim input = [] then w
      else case response of
             Search_error \<Rightarrow> w\<lparr>searchResults := Search_failed\<rparr>
           | Search_data data \<Rightarrow> displaySearchResults data (w\<lparr>searchResults := Searching\<rparr>))"

text \<open>\<^verbatim>\<open>CONFIG.maxChatHistory\<close> and the entries of \<^verbatim>\<open>ChatManager.chatHistory\<close>.\<close>

definition maxChatHistory :: nat where
  "maxChatHistory = 100"

datatype role = User | Assistant

type_synonym chat_entry = "role \<times> string"

text \<open>\<^verbatim>\<open>xs.slice(-k)\<close>: the last \<open>k\<close> elements; the whole array when \<open>k\<close> is zero.\<close>

definition slice_from_end :: "nat \<Rightarrow> 'a list \<Rightarrow> 'a list" where
  "slice_from_end k xs = (if k = 0 then xs else drop (length xs - k) xs)"

text \<open>Lines 256 to 262 of \<^verbatim>\<open>sendMessage\<close>.\<close>

definition update_chat_history :: "string \<Rightarrow> string \<Rightarrow> chat_entry list \<Rightarrow> chat_entry list" where
  "update_chat_history message responseText chatHistory =
     (let pushed = (chatHistory @ [(User, message)]) @ [(Assistant, responseText)]
      in if length pushed > maxChatHistory then slice_from_end maxChatHistory pushed
         else pushed)"

text \<open>
  \<^verbatim>\<open>sendMessage\<close> on the text of the input box and the outcome of the request: an exception
  (the \<^verbatim>\<open>catch\<close> leaves the history as it is), or the \<^verbatim>\<open>response\<close> field of the data
  that was obtained, absent or a string.
\<close>

datatype chat_response = Chat_error | Chat_data "string option"

definition sendMessage :: "string \<Rightarrow> chat_response \<Rightarrow> chat_entry list \<Rightarrow> chat_entry list" where
  "sendMessage input response chatHistory =
     (let message = trim input
      in if message = [] then chatHistory
         else case response of
                Chat_error \<Rightarrow> chatHistory
              | Chat_data r \<Rightarrow>
                  update_chat_history message (or_else r ''No response received'') chatHistory)"

section \<open>Notions used to state the properties\<close>

text \<open>
  The events that settle the operation: \<^verbatim>\<open>complete\<close> and \<^verbatim>\<open>error\<close>.
\<close>

definition terminal_event :: "json_value \<Rightarrow> bool" where
  "terminal_event d =
     (case d of JNull \<Rightarrow> False
      | JValue data \<Rightarrow> etype data = Some ''complete'' \<or> etype data = Some ''error'')"

text \<open>A handler that neither reads nor writes \<open>buffer\<close>.\<close>

definition ignores_buffer :: "(json_value \<Rightarrow> upload_state \<Rightarrow> upload_state) \<Rightarrow> bool" where
  "ignores_buffer handle \<longleftrightarrow>
     (\<forall>d st b. handle d (st\<lparr>buffer := b\<rparr>) = (handle d st)\<lparr>buffer := b\<rparr>)"

text \<open>A handler whose effect does not depend on the number of logged errors.\<close>

definition ignores_console :: "(json_value \<Rightarrow> upload_state \<Rightarrow> upload_state) \<Rightarrow> bool" where
  "ignores_console handle \<longleftrightarrow>
     (\<forall>d st. handle d (console_error st) = console_error (handle d st))"

text \<open>
  The number of words of a text, as the specification means it: the maximal runs of
  characters that are not white space. \<open>in_word\<close> tells whether the previous character
  belongs to a word. This is the notion that \<^const>\<open>wordCount\<close> is compared with.
\<close>

fun words_from :: "bool \<Rightarrow> string \<Rightarrow> nat" where
  "words_from in_word [] = 0"
| "words_from in_word (c # cs) =
     (if is_space c then words_from False cs
      else (if in_word then 0 else 1) + words_from True cs)"

definition number_of_words :: "string \<Rightarrow> nat" where
  "number_of_words s = words_from False s"

text \<open>
  The nesting depths of the specification: opening minus closing characters of a text, and
  the positions of a chunk whose character closes a brace or a bracket and after which both
  depths are zero. This is the notion that \<^const>\<open>lastCompleteIndex\<close> is compared with.
\<close>

definition net :: "char \<Rightarrow> char \<Rightarrow> string \<Rightarrow> int" where
  "net opening closing s =
     int (length (filter (\<lambda>c. c = opening) s)) - int (length (filter (\<lambda>c. c = closing) s))"

definition complete_at :: "string \<Rightarrow> nat \<Rightarrow> bool" where
  "complete_at chunk i \<longleftrightarrow>
     i < length chunk \<and> (chunk ! i = CHR ''}'' \<or> chunk ! i = CHR '']'')
     \<and> net (CHR ''{'') (CHR ''}'') (take (Suc i) chunk) = 0
     \<and> net (CHR ''['') (CHR '']'') (take (Suc i) chunk) = 0"

section \<open>Sample inputs\<close>

text \<open>The events and texts of the examples.\<close>

definition progress_50 :: stream_event where
  "progress_50 =
     \<lparr>etype = Some ''progress'', percent = Some 50, stage = None, detail = None,
      document_id = None, caption = None, ocr_text = None,
      keywords_field = None, extra = []\<rparr>"

definition complete_abc123 :: stream_event where
  "complete_abc123 =
     \<lparr>etype = Some ''complete'', percent = None, stage = None, detail = None,
      document_id = Some ''abc123'', caption = None, ocr_text = None,
      keywords_field = None, extra = []\<rparr>"

definition error_disk_full :: stream_event where
  "error_disk_full =
     \<lparr>etype = Some ''error'', percent = None, stage = None, detail = Some ''disk full'',
      document_id = None, caption = None, ocr_text = None,
      keywords_field = None, extra = []\<rparr>"

definition error_no_detail :: stream_event where
  "error_no_detail =
     \<lparr>etype = Some ''error'', percent = None, stage = None, detail = None,
      document_id = None, caption = None, ocr_text = None,
      keywords_field = None, extra = []\<rparr>"

definition complete_keywords_text :: stream_event where
  "complete_keywords_text =
     \<lparr>etype = Some ''complete'', percent = None, stage = None, detail = None,
      document_id = Some ''d1'', caption = None, ocr_text = None,
      keywords_field = Some (Not_an_array True), extra = []\<rparr>"

definition line_complete_keywords_text :: string where
  \<open>line_complete_keywords_text = ''{"type":"complete","document_id":"d1","keywords":"cat"}''\<close>

definition line_error_disk_full :: string where
  \<open>line_error_disk_full = ''{"type":"error","detail":"disk full"}''\<close>

text \<open>
  An \<^verbatim>\<open>escapeHtml\<close> that never raises, on texts that hold no character to escape: the
  text itself, and the empty text when the text is absent (as the \<^verbatim>\<open>escapeHtml\<close> of
  \<^verbatim>\<open>fileUpload.js\<close>, which assigns the text to \<^verbatim>\<open>textContent\<close>, does). The examples
  never call it: their \<^verbatim>\<open>complete\<close> events have a document identifier.
\<close>

definition sample_escapeHtml :: "string option \<Rightarrow> string option" where
  "sample_escapeHtml text = Some (case text of None \<Rightarrow> [] | Some t \<Rightarrow> t)"

definition progress_stage :: "rat \<Rightarrow> string \<Rightarrow> stream_event" where
  "progress_stage p s =
     \<lparr>etype = Some ''progress'', percent = Some p, stage = Some s, detail = None,
      document_id = None, caption = None, ocr_text = None,
      keywords_field = None, extra = []\<rparr>"

definition line_progress_50 :: string where
  \<open>line_progress_50 = ''{"type":"progress","percent":50}''\<close>

definition line_complete_abc123 :: string where
  \<open>line_complete_abc123 = ''{"type":"complete","document_id":"abc123"}''\<close>

definition line_not_json :: string where
  "line_not_json = ''{not json''"

text \<open>
  \<^verbatim>\<open>JSON.parse\<close> on the payloads of the examples. Every other payload that the examples
  pass to it is one on which \<^verbatim>\<open>JSON.parse\<close> raises.
\<close>

definition sample_parse :: "string \<Rightarrow> json_value option" where
  \<open>sample_parse =
     map_of [(''{"type":"progress","percent":50}'', JValue progress_50),
             (''{"type":"complete","document_id":"abc123"}'', JValue complete_abc123),
             (''{"type":"error","detail":"disk full"}'', JValue error_disk_full),
             (''{"type":"complete","document_id":"d1","keywords":"cat"}'',
                JValue complete_keywords_text),
             (''null'', JNull)]\<close>

definition sample_object :: string where
  \<open>sample_object = ''{"a":1}''\<close>

definition sample_pretty :: string where
  \<open>sample_pretty = ''{'' @ [CHR 0x0A] @ ''  "a": 1'' @ [CHR 0x0A] @ ''}''\<close>

definition sample_partial :: string where
  \<open>sample_partial = ''{"a":1},{"b''\<close>

text \<open>
  \<^verbatim>\<open>JSON.stringify(JSON.parse(s), null, 2)\<close> on the texts of the examples. Every other text
  that the examples pass to it is one on which \<^verbatim>\<open>JSON.parse\<close> raises.
\<close>

definition sample_reformat :: "string \<Rightarrow> string option" where
  \<open>sample_reformat =
     map_of [(''{"a":1}'', ''{'' @ [CHR 0x0A] @ ''  "a": 1'' @ [CHR 0x0A] @ ''}''),
             (''{"a":"}"}'', ''{'' @ [CHR 0x0A] @ ''  "a": "}"'' @ [CHR 0x0A] @ ''}'')]\<close>

definition initial_window :: "string window_state" where
  "initial_window = \<lparr>currentSearchResults = None, searchResults = Empty_pane\<rparr>"

section \<open>Properties of the chat history\<close>

lemma slice_last_two:
  "2 \<le> k \<Longrightarrow> k < length h + 2 \<Longrightarrow>
   slice_from_end k (h @ [u, a]) = drop (length h + 2 - k) h @ [u, a]"
  by (simp add: slice_from_end_def)

lemma trim_hi: "trim ''  hi '' = ''hi''"
  by (simp add: trim_def is_space_def)

text \<open>
  C10. A call of \<^verbatim>\<open>sendMessage\<close> with a message that is not blank, whose request obtains
  data, leaves a history that ends with the user message followed by the assistant response
  (the \<^verbatim>\<open>response\<close> field, or \<^verbatim>\<open>No response received\<close>), and that has at most
  \<^const>\<open>maxChatHistory\<close> entries: when the two pushes make it longer, it is cut to its most
  recent \<^const>\<open>maxChatHistory\<close> entries, and otherwise nothing is dropped. The history before
  the call may have any length (it is loaded from local storage without a bound).
\<close>

theorem sendMessage_history:
  assumes "trim input \<noteq> []"
  shows "(\<exists>older. sendMessage input (Chat_data r) h =
            older @ [(User, trim input), (Assistant, or_else r ''No response received'')])
       \<and> length (sendMessage input (Chat_data r) h) \<le> maxChatHistory
       \<and> (maxChatHistory < length h + 2 \<longrightarrow>
            sendMessage input (Chat_data r) h =
              drop (length h + 2 - maxChatHistory)
                (h @ [(User, trim input), (Assistant, or_else r ''No response received'')]))
       \<and> (length h + 2 \<le> maxChatHistory \<longrightarrow>
            sendMessage input (Chat_data r) h =
              h @ [(User, trim input), (Assistant, or_else r ''No response received'')])"
proof (cases "maxChatHistory < length h + 2")
  case True
  then have "sendMessage input (Chat_data r) h =
      drop (length h + 2 - maxChatHistory) h
        @ [(User, trim input), (Assistant, or_else r ''No response received'')]"
    using assms slice_last_two [of maxChatHistory h]
    by (simp add: sendMessage_def update_chat_history_def maxChatHistory_def)
  with True show ?thesis by (simp add: maxChatHistory_def)
next
  case False
  then have "sendMessage input (Chat_data r) h =
      h @ [(User, trim input), (Assistant, or_else r ''No response received'')]"
    using assms by (simp add: sendMessage_def update_chat_history_def)
  with False show ?thesis by simp
qed

theorem sendMessage_history_witness:
  "sendMessage ''  hi '' (Chat_data (Some ''hello''))
      (replicate 100 (Assistant, ''x'')) =
    replicate 98 (Assistant, ''x'') @ [(User, ''hi''), (Assistant, ''hello'')]
   \<and> sendMessage ''  hi '' (Chat_data (Some ''hello'')) [] = [(User, ''hi''), (Assistant, ''hello'')]"
proof -
  have t: "trim ''  hi '' \<noteq> []" by (simp add: trim_hi)
  have o: "or_else (Some ''hello'') ''No response received'' = ''hello''"
    by (simp add: or_else_def truthy_def)
  have d: "drop 2 (replicate 100 (Assistant, ''x'')) = replicate 98 (Assistant, ''x'')"
    by simp
  show ?thesis
    using sendMessage_history [OF t, of "Some ''hello''" "replicate 100 (Assistant, ''x'')"]
          sendMessage_history [OF t, of "Some ''hello''" "[]"]
    by (simp add: trim_hi o maxChatHistory_def d)
qed

section \<open>Properties of the stream decoder\<close>

lemma split_acc_line:
  "CHR 0x0A \<notin> set l \<Longrightarrow> split_acc cur (l @ CHR 0x0A # rest) = (cur @ l) # split_acc [] rest"
  by (induction l arbitrary: cur) auto

lemma split_acc_data_line:
  assumes "CHR 0x0A \<notin> set p"
  shows "split_acc [] (data_line p @ rest) = (''data: '' @ p) # split_acc [] rest"
proof -
  have e: "data_line p @ rest = (''data: '' @ p) @ CHR 0x0A # rest"
    by (simp add: data_line_def)
  have n: "CHR 0x0A \<notin> set (''data: '' @ p)"
    using assms by simp
  show ?thesis
    unfolding e using split_acc_line [OF n, of "[]" rest] by (simp only: append_Nil)
qed

lemma split_newline_lines:
  "\<forall>p\<in>set ps. CHR 0x0A \<notin> set p \<Longrightarrow>
   split_newline (concat (map data_line ps)) = map (\<lambda>p. ''data: '' @ p) ps @ [[]]"
proof (induction ps)
  case Nil
  then show ?case by (simp add: split_newline_def)
next
  case (Cons p ps)
  have n: "CHR 0x0A \<notin> set p" using Cons.prems by simp
  have "split_newline (concat (map data_line (p # ps)))
      = split_acc [] (data_line p @ concat (map data_line ps))"
    by (simp add: split_newline_def)
  also have "\<dots> = (''data: '' @ p) # split_newline (concat (map data_line ps))"
    by (simp only: split_acc_data_line [OF n] split_newline_def)
  also have "\<dots> = (''data: '' @ p) # (map (\<lambda>p. ''data: '' @ p) ps @ [[]])"
    using Cons by simp
  finally show ?case by simp
qed

lemma process_line_data:
  "process_line parse handle (''data: '' @ p) st =
     (case parse p of None \<Rightarrow> console_error st | Some d \<Rightarrow> handle d st)"
  by (simp add: process_line_def startsWith_def)

lemma process_line_empty: "process_line parse handle [] st = st"
  by (simp add: process_line_def startsWith_def)

lemma fold_process_data_lines:
  "\<forall>p\<in>set ps. parse p \<noteq> None \<Longrightarrow>
   fold (process_line parse handle) (map (\<lambda>p. ''data: '' @ p) ps @ [[]]) st
     = fold handle (map (\<lambda>p. the (parse p)) ps) st"
proof (induction ps arbitrary: st)
  case Nil
  then show ?case by (simp add: process_line_empty)
next
  case (Cons p ps)
  then obtain d where "parse p = Some d" by auto
  then show ?case using Cons by (simp add: process_line_data del: append.simps)
qed

lemma set_width_buffer:
  "set_width x (st\<lparr>buffer := b\<rparr>) = (set_width x st)\<lparr>buffer := b\<rparr>"
  by (simp add: set_width_def split: option.splits)

lemma console_error_buffer:
  "console_error (st\<lparr>buffer := b\<rparr>) = (console_error st)\<lparr>buffer := b\<rparr>"
  by (simp add: console_error_def)

lemma image_progress_stage_buffer:
  "image_progress_stage data (st\<lparr>buffer := b\<rparr>) = (image_progress_stage data st)\<lparr>buffer := b\<rparr>"
  by (simp add: image_progress_stage_def Let_def set_width_def)

lemma complete_event_buffer:
  "complete_event escapeHtml data (st\<lparr>buffer := b\<rparr>)
     = (complete_event escapeHtml data st)\<lparr>buffer := b\<rparr>"
  by (simp add: complete_event_def console_error_def Let_def split: option.splits)

lemma image_ignores_buffer: "ignores_buffer (handle_image_event escapeHtml)"
  unfolding ignores_buffer_def
proof (intro allI)
  fix d st b
  show "handle_image_event escapeHtml d (st\<lparr>buffer := b\<rparr>) = (handle_image_event escapeHtml d st)\<lparr>buffer := b\<rparr>"
    by (cases d)
       (simp_all add: handle_image_event_def image_progress_base_def set_width_buffer
          console_error_buffer image_progress_stage_buffer complete_event_buffer)
qed

lemma append_structured_buffer:
  "append_structured f c (st\<lparr>buffer := b\<rparr>) = (append_structured f c st)\<lparr>buffer := b\<rparr>"
  by (simp add: append_structured_def set_width_def Let_def)

lemma pdf_progress_stage_buffer:
  "pdf_progress_stage f data (st\<lparr>buffer := b\<rparr>) = (pdf_progress_stage f data st)\<lparr>buffer := b\<rparr>"
  by (simp add: pdf_progress_stage_def append_structured_buffer)

lemma pdf_ignores_buffer: "ignores_buffer (handle_pdf_event escapeHtml f)"
  unfolding ignores_buffer_def
proof (intro allI)
  fix d st b
  show "handle_pdf_event escapeHtml f d (st\<lparr>buffer := b\<rparr>) = (handle_pdf_event escapeHtml f d st)\<lparr>buffer := b\<rparr>"
    by (cases d)
       (simp_all add: handle_pdf_event_def set_width_buffer console_error_buffer
          pdf_progress_stage_buffer complete_event_buffer)
qed

lemma fold_ignores_buffer:
  "ignores_buffer handle \<Longrightarrow>
   fold handle evs (st\<lparr>buffer := b\<rparr>) = (fold handle evs st)\<lparr>buffer := b\<rparr>"
  by (induction evs arbitrary: st) (simp_all add: ignores_buffer_def)

lemma on_readystatechange_lines:
  assumes "\<forall>p\<in>set ps. CHR 0x0A \<notin> set p \<and> parse p \<noteq> None"
      and "r = 3 \<or> r = 4" and "ignores_buffer handle"
  shows "on_readystatechange parse handle r (buffer st @ concat (map data_line ps)) st
       = (fold handle (map (\<lambda>p. the (parse p)) ps) st)
           \<lparr>buffer := buffer st @ concat (map data_line ps)\<rparr>"
proof -
  have "split_newline (concat (map data_line ps)) = map (\<lambda>p. ''data: '' @ p) ps @ [[]]"
    using assms(1) by (simp add: split_newline_lines)
  then show ?thesis
    using assms fold_process_data_lines [of ps parse handle]
    by (simp add: on_readystatechange_def fold_ignores_buffer)
qed

lemma decoder_run:
  assumes "ignores_buffer handle"
  shows "\<forall>ps\<in>set pss. \<forall>p\<in>set ps. CHR 0x0A \<notin> set p \<and> parse p \<noteq> None \<Longrightarrow>
     length states = length pss \<Longrightarrow> \<forall>r\<in>set states. r = 3 \<or> r = 4 \<Longrightarrow>
     fold (xhr_listener parse handle)
       (map2 ReadyStateChange states
          (deliveries (buffer st) (map (\<lambda>ps. concat (map data_line ps)) pss))) st
     = (fold handle (map (\<lambda>p. the (parse p)) (concat pss)) st)
         \<lparr>buffer := buffer st @ concat (map data_line (concat pss))\<rparr>"
proof (induction pss arbitrary: states st)
  case Nil
  then show ?case by simp
next
  case (Cons ps pss)
  then obtain r rs where s: "states = r # rs" by (cases states) auto
  let ?st1 = "(fold handle (map (\<lambda>p. the (parse p)) ps) st)
           \<lparr>buffer := buffer st @ concat (map data_line ps)\<rparr>"
  have one: "on_readystatechange parse handle r (buffer st @ concat (map data_line ps)) st = ?st1"
    using Cons.prems s assms by (intro on_readystatechange_lines) auto
  have b1: "buffer ?st1 = buffer st @ concat (map data_line ps)" by simp
  have "fold (xhr_listener parse handle)
       (map2 ReadyStateChange rs
          (deliveries (buffer ?st1) (map (\<lambda>ps. concat (map data_line ps)) pss))) ?st1
     = (fold handle (map (\<lambda>p. the (parse p)) (concat pss)) ?st1)
         \<lparr>buffer := buffer ?st1 @ concat (map data_line (concat pss))\<rparr>"
    using Cons.prems s by (intro Cons.IH) auto
  then show ?case
    using one s assms by (simp add: fold_ignores_buffer)
qed

lemma sample_lines:
  "sample_parse line_progress_50 = Some (JValue progress_50)"
  "sample_parse line_complete_abc123 = Some (JValue complete_abc123)"
  "CHR 0x0A \<notin> set line_progress_50"
  "CHR 0x0A \<notin> set line_complete_abc123"
  by (simp_all add: sample_parse_def line_progress_50_def line_complete_abc123_def)

text \<open>
  C1. The body arrives as chunks, each a sequence of whole lines \<^verbatim>\<open>data: <json>\<close> ended by
  a newline, where no payload holds a newline and \<^verbatim>\<open>JSON.parse\<close> accepts every payload;
  a chunk may be empty (a notification without new text). Each notification has
  \<^verbatim>\<open>readyState\<close> 3 or 4 and exposes the whole text received so far. Then both upload
  functions end in the state reached by handling the parsed payloads of all the lines, one
  after the other in the order of arrival, each exactly once, whatever the division into
  chunks; \<open>buffer\<close> holds the whole text.
\<close>

theorem decoder_dispatches_each_line_once:
  assumes "\<forall>ps\<in>set pss. \<forall>p\<in>set ps. CHR 0x0A \<notin> set p \<and> parse p \<noteq> None"
      and "length states = length pss" and "\<forall>r\<in>set states. r = 3 \<or> r = 4"
  shows "uploadImageWithStreaming parse escapeHtml
           (map2 ReadyStateChange states
              (deliveries [] (map (\<lambda>ps. concat (map data_line ps)) pss)))
         = (fold (handle_image_event escapeHtml) (map (\<lambda>p. the (parse p)) (concat pss)) initial_state)
             \<lparr>buffer := concat (map data_line (concat pss))\<rparr>
       \<and> uploadPdfWithStreaming parse escapeHtml reformat
           (map2 ReadyStateChange states
              (deliveries [] (map (\<lambda>ps. concat (map data_line ps)) pss)))
         = (fold (handle_pdf_event escapeHtml reformat) (map (\<lambda>p. the (parse p)) (concat pss)) initial_state)
             \<lparr>buffer := concat (map data_line (concat pss))\<rparr>"
proof -
  have b: "buffer initial_state = []" by (simp add: initial_state_def)
  show ?thesis
    using decoder_run [where handle = "handle_image_event escapeHtml" and st = initial_state,
            OF image_ignores_buffer assms]
          decoder_run [where handle = "handle_pdf_event escapeHtml reformat"
            and st = initial_state, OF pdf_ignores_buffer assms]
    by (simp add: uploadImageWithStreaming_def uploadPdfWithStreaming_def b)
qed

theorem decoder_dispatches_each_line_once_witness:
  "uploadImageWithStreaming sample_parse sample_escapeHtml
     [ReadyStateChange 3 (data_line line_progress_50),
      ReadyStateChange 4 (data_line line_progress_50 @ data_line line_complete_abc123)]
     = (fold (handle_image_event sample_escapeHtml) [JValue progress_50, JValue complete_abc123] initial_state)
         \<lparr>buffer := data_line line_progress_50 @ data_line line_complete_abc123\<rparr>
   \<and> uploadImageWithStreaming sample_parse sample_escapeHtml
     [ReadyStateChange 3 (data_line line_progress_50 @ data_line line_complete_abc123)]
     = (fold (handle_image_event sample_escapeHtml) [JValue progress_50, JValue complete_abc123] initial_state)
         \<lparr>buffer := data_line line_progress_50 @ data_line line_complete_abc123\<rparr>"
proof -
  have a: "\<forall>ps\<in>set [[line_progress_50], [line_complete_abc123]].
             \<forall>p\<in>set ps. CHR 0x0A \<notin> set p \<and> sample_parse p \<noteq> None"
    by (simp add: sample_lines)
  have b: "\<forall>ps\<in>set [[line_progress_50, line_complete_abc123]].
             \<forall>p\<in>set ps. CHR 0x0A \<notin> set p \<and> sample_parse p \<noteq> None"
    by (simp add: sample_lines)
  have l2: "length [3::nat, 4] = length [[line_progress_50], [line_complete_abc123]]"
    and l1: "length [3::nat] = length [[line_progress_50, line_complete_abc123]]"
    by simp_all
  have r2: "\<forall>r\<in>set [3::nat, 4]. r = 3 \<or> r = 4" and r1: "\<forall>r\<in>set [3::nat]. r = 3 \<or> r = 4"
    by simp_all
  show ?thesis
    using decoder_dispatches_each_line_once
            [where escapeHtml = sample_escapeHtml and reformat = sample_reformat, OF a l2 r2]
          decoder_dispatches_each_line_once
            [where escapeHtml = sample_escapeHtml and reformat = sample_reformat, OF b l1 r1]
    by (simp add: sample_lines)
qed

lemma set_width_console:
  "set_width x (console_error st) = console_error (set_width x st)"
  by (simp add: set_width_def console_error_def split: option.splits)

lemma image_progress_stage_console:
  "image_progress_stage data (console_error st) = console_error (image_progress_stage data st)"
  by (simp add: image_progress_stage_def Let_def set_width_def console_error_def)

lemma complete_event_console:
  "complete_event escapeHtml data (console_error st)
     = console_error (complete_event escapeHtml data st)"
  by (simp add: complete_event_def console_error_def Let_def split: option.splits)

lemma image_console:
  "handle_image_event escapeHtml d (console_error st) = console_error (handle_image_event escapeHtml d st)"
  by (cases d)
     (simp_all add: handle_image_event_def image_progress_base_def set_width_console
        image_progress_stage_console complete_event_console, simp_all add: console_error_def)

lemma append_structured_console:
  "append_structured f c (console_error st) = console_error (append_structured f c st)"
  by (simp add: append_structured_def set_width_def Let_def console_error_def)

lemma pdf_progress_stage_console:
  "pdf_progress_stage f data (console_error st) = console_error (pdf_progress_stage f data st)"
  by (simp add: pdf_progress_stage_def append_structured_console) (simp add: console_error_def)

lemma pdf_console:
  "handle_pdf_event escapeHtml f d (console_error st) = console_error (handle_pdf_event escapeHtml f d st)"
  by (cases d)
     (simp_all add: handle_pdf_event_def set_width_console pdf_progress_stage_console
        complete_event_console, simp_all add: console_error_def)

lemma process_line_console:
  "ignores_console handle \<Longrightarrow>
   process_line parse handle l (console_error st) = console_error (process_line parse handle l st)"
  by (simp add: process_line_def ignores_console_def split: option.splits)

lemma fold_process_console:
  "ignores_console handle \<Longrightarrow>
   fold (process_line parse handle) ls (console_error st)
     = console_error (fold (process_line parse handle) ls st)"
  by (induction ls arbitrary: st) (simp_all add: process_line_console)

lemma skip_malformed:
  assumes "ignores_console handle" and "parse bad = None"
  shows "fold (process_line parse handle) (before @ (''data: '' @ bad) # after) st
       = console_error (fold (process_line parse handle) (before @ after) st)"
  using assms(2) fold_process_console [OF assms(1)]
  by (simp add: process_line_data del: append.simps)

text \<open>
  C7. A line that begins with \<^verbatim>\<open>data: \<close> and whose remainder \<^verbatim>\<open>JSON.parse\<close> rejects
  is logged: the number of \<^verbatim>\<open>console.error\<close> calls grows by one. It changes nothing else:
  the promise stays as it was, and the lines before and after it are handled as if the
  malformed line were not there, the final state differing only by the one logged error, in
  both upload functions.
\<close>

theorem malformed_line_skipped:
  assumes "parse bad = None"
  shows "process_line parse (handle_image_event escapeHtml) (''data: '' @ bad) st
           = st\<lparr>console_errors := Suc (console_errors st)\<rparr>
       \<and> process_line parse (handle_pdf_event escapeHtml reformat) (''data: '' @ bad) st
           = st\<lparr>console_errors := Suc (console_errors st)\<rparr>
       \<and> console_errors (process_line parse (handle_image_event escapeHtml) (''data: '' @ bad) st)
           = Suc (console_errors st)
       \<and> promise (process_line parse (handle_image_event escapeHtml) (''data: '' @ bad) st)
           = promise st
       \<and> fold (process_line parse (handle_image_event escapeHtml))
             (before @ (''data: '' @ bad) # after) st
           = (fold (process_line parse (handle_image_event escapeHtml)) (before @ after) st)
               \<lparr>console_errors :=
                  Suc (console_errors
                    (fold (process_line parse (handle_image_event escapeHtml)) (before @ after) st))\<rparr>
       \<and> fold (process_line parse (handle_pdf_event escapeHtml reformat))
             (before @ (''data: '' @ bad) # after) st
           = (fold (process_line parse (handle_pdf_event escapeHtml reformat)) (before @ after) st)
               \<lparr>console_errors :=
                  Suc (console_errors
                    (fold (process_line parse (handle_pdf_event escapeHtml reformat))
                       (before @ after) st))\<rparr>"
proof -
  have i: "ignores_console (handle_image_event escapeHtml)"
    by (simp add: ignores_console_def image_console)
  have p: "ignores_console (handle_pdf_event escapeHtml reformat)"
    by (simp add: ignores_console_def pdf_console)
  have l: "process_line parse handle (''data: '' @ bad) st
      = st\<lparr>console_errors := Suc (console_errors st)\<rparr>" for handle
    using assms process_line_data [of parse handle bad st] by (simp add: console_error_def)
  have c: "console_errors (process_line parse (handle_image_event escapeHtml) (''data: '' @ bad) st)
      = Suc (console_errors st)"
    by (simp only: l) simp
  have q: "promise (process_line parse (handle_image_event escapeHtml) (''data: '' @ bad) st)
      = promise st"
    by (simp only: l) simp
  have fi: "fold (process_line parse (handle_image_event escapeHtml))
             (before @ (''data: '' @ bad) # after) st
           = (fold (process_line parse (handle_image_event escapeHtml)) (before @ after) st)
               \<lparr>console_errors :=
                  Suc (console_errors
                    (fold (process_line parse (handle_image_event escapeHtml)) (before @ after) st))\<rparr>"
    using skip_malformed [of "handle_image_event escapeHtml" parse bad before after st, OF i assms]
    by (simp only: console_error_def)
  have fp: "fold (process_line parse (handle_pdf_event escapeHtml reformat))
             (before @ (''data: '' @ bad) # after) st
           = (fold (process_line parse (handle_pdf_event escapeHtml reformat)) (before @ after) st)
               \<lparr>console_errors :=
                  Suc (console_errors
                    (fold (process_line parse (handle_pdf_event escapeHtml reformat))
                       (before @ after) st))\<rparr>"
    using skip_malformed
            [of "handle_pdf_event escapeHtml reformat" parse bad before after st, OF p assms]
    by (simp only: console_error_def)
  from l c q fi fp show ?thesis by blast
qed

theorem malformed_line_skipped_witness:
  "sample_parse line_not_json = None
   \<and> fold (process_line sample_parse (handle_image_event sample_escapeHtml))
       (split_newline (data_line line_progress_50 @ data_line line_not_json
          @ data_line line_complete_abc123)) initial_state
     = (handle_image_event sample_escapeHtml (JValue complete_abc123)
         (handle_image_event sample_escapeHtml (JValue progress_50) initial_state))
         \<lparr>console_errors := 1\<rparr>
   \<and> promise (fold (process_line sample_parse (handle_image_event sample_escapeHtml))
       (split_newline (data_line line_progress_50 @ data_line line_not_json
          @ data_line line_complete_abc123)) initial_state) = Fulfilled complete_abc123"
proof -
  have b: "sample_parse line_not_json = None"
    by (simp add: sample_parse_def line_not_json_def)
  have n: "\<forall>p\<in>set [line_progress_50, line_not_json, line_complete_abc123]. CHR 0x0A \<notin> set p"
    by (simp add: sample_lines) (simp add: line_not_json_def)
  have s: "split_newline (data_line line_progress_50 @ data_line line_not_json
          @ data_line line_complete_abc123)
      = [''data: '' @ line_progress_50] @ (''data: '' @ line_not_json)
          # [''data: '' @ line_complete_abc123, []]"
    using split_newline_lines [OF n] by simp
  have r: "fold (process_line sample_parse (handle_image_event sample_escapeHtml))
       ([''data: '' @ line_progress_50] @ [''data: '' @ line_complete_abc123, []]) initial_state
     = handle_image_event sample_escapeHtml (JValue complete_abc123)
         (handle_image_event sample_escapeHtml (JValue progress_50) initial_state)"
    using process_line_data
            [of sample_parse "handle_image_event sample_escapeHtml" line_progress_50]
          process_line_data
            [of sample_parse "handle_image_event sample_escapeHtml" line_complete_abc123]
    by (simp add: sample_lines process_line_empty)
  have e: "console_errors (handle_image_event sample_escapeHtml (JValue complete_abc123)
         (handle_image_event sample_escapeHtml (JValue progress_50) initial_state)) = 0"
    by (simp add: handle_image_event_def complete_event_def displayUploadResults_def
          keywords_join_raises_def image_progress_base_def image_progress_stage_def
          complete_abc123_def progress_50_def truthy_def initial_state_def set_width_def)
  have f: "promise (handle_image_event sample_escapeHtml (JValue complete_abc123)
         (handle_image_event sample_escapeHtml (JValue progress_50) initial_state))
       = Fulfilled complete_abc123"
    by (simp add: handle_image_event_def complete_event_def displayUploadResults_def
          keywords_join_raises_def image_progress_base_def image_progress_stage_def
          progress_50_def complete_abc123_def truthy_def initial_state_def set_width_def)
  have m: "fold (process_line sample_parse (handle_image_event sample_escapeHtml))
       (split_newline (data_line line_progress_50 @ data_line line_not_json
          @ data_line line_complete_abc123)) initial_state
     = (handle_image_event sample_escapeHtml (JValue complete_abc123)
         (handle_image_event sample_escapeHtml (JValue progress_50) initial_state))
         \<lparr>console_errors := 1\<rparr>"
    using malformed_line_skipped
            [where parse = sample_parse and bad = line_not_json
               and before = "[''data: '' @ line_progress_50]"
               and after = "[''data: '' @ line_complete_abc123, []]"
               and st = initial_state and reformat = sample_reformat
               and escapeHtml = sample_escapeHtml, OF b]
    unfolding s r e by simp
  from b m f show ?thesis by simp
qed

section \<open>Properties of the image upload\<close>

lemma set_width_frame [simp]:
  "promise (set_width x st) = promise st"
  "captionBuffer (set_width x st) = captionBuffer st"
  "jsonBuffer (set_width x st) = jsonBuffer st"
  "statusText (set_width x st) = statusText st"
  "buffer (set_width x st) = buffer st"
  "console_errors (set_width x st) = console_errors st"
  by (simp_all add: set_width_def split: option.splits)

lemma set_width_valid [simp]: "0 \<le> w \<Longrightarrow> width (set_width (Some w) st) = w"
  by (simp add: set_width_def)

lemma image_progress_stage_promise [simp]:
  "promise (image_progress_stage data st) = promise st"
  by (simp add: image_progress_stage_def Let_def)

lemma append_structured_promise [simp]:
  "promise (append_structured reformat chunk st) = promise st"
  by (simp add: append_structured_def Let_def)

lemma pdf_progress_stage_promise [simp]:
  "promise (pdf_progress_stage reformat data st) = promise st"
  by (simp add: pdf_progress_stage_def)

lemma complete_event_effect:
  "width (complete_event escapeHtml data st) = 100"
  "statusText (complete_event escapeHtml data st) = ''Upload complete!''"
  "promise (complete_event escapeHtml data st)
     = (if displayUploadResults escapeHtml data = None then promise st
        else resolve data (promise st))"
  "console_errors (complete_event escapeHtml data st)
     = (if displayUploadResults escapeHtml data = None then Suc (console_errors st)
        else console_errors st)"
  by (auto simp: complete_event_def console_error_def Let_def split: option.splits)

lemma image_promise_step:
  "promise (handle_image_event escapeHtml d st) =
     (case d of JNull \<Rightarrow> promise st
      | JValue data \<Rightarrow>
          if etype data = Some ''complete'' then
            if displayUploadResults escapeHtml data = None then promise st
            else resolve data (promise st)
          else if etype data = Some ''error'' then
            reject (Message (or_else (detail data) ''Upload failed'')) (promise st)
          else promise st)"
  by (simp add: handle_image_event_def image_progress_base_def console_error_def
        complete_event_effect split: json_value.splits)

lemma pdf_promise_step:
  "promise (handle_pdf_event escapeHtml reformat d st) =
     (case d of JNull \<Rightarrow> promise st
      | JValue data \<Rightarrow>
          if etype data = Some ''complete'' then
            if displayUploadResults escapeHtml data = None then promise st
            else resolve data (promise st)
          else if etype data = Some ''error'' then
            reject (Message (or_else (detail data) ''Upload failed'')) (promise st)
          else promise st)"
  by (simp add: handle_pdf_event_def console_error_def complete_event_effect
        split: json_value.splits)

lemma complete_abc123_displayed:
  "displayUploadResults escapeHtml complete_abc123 = Some (PdfResults complete_abc123)"
  by (simp add: displayUploadResults_def complete_abc123_def truthy_def keywords_join_raises_def)

text \<open>
  C2, as amended. In the image upload, a progress event with a percent \<open>p\<close> between 0 and
  100 whose stage does not begin with \<^verbatim>\<open>CAPTION_CHUNK:\<close> leaves the width of the progress
  bar at \<open>20 + p * 0.8\<close>; with percent 50 the width is 60. A \<^verbatim>\<open>complete\<close> event sets the
  width to 100 and, when its results are displayed and the operation is pending, resolves it
  with the event itself, \<^verbatim>\<open>document_id\<close> included.
\<close>

theorem image_progress_then_complete:
  "(etype data = Some ''progress'' \<and> percent data = Some p \<and> 0 \<le> p \<and> p \<le> 100
        \<and> \<not> (truthy (stage data) \<and> startsWith (the (stage data)) ''CAPTION_CHUNK:'') \<longrightarrow>
      width (handle_image_event escapeHtml (JValue data) st) = 20 + p * (8 / 10))
   \<and> (etype finished = Some ''complete'' \<longrightarrow>
      width (handle_image_event escapeHtml (JValue finished) st) = 100
      \<and> (promise st = Pending \<and> displayUploadResults escapeHtml finished \<noteq> None \<longrightarrow>
           promise (handle_image_event escapeHtml (JValue finished) st) = Fulfilled finished
           \<and> (\<exists>payload. promise (handle_image_event escapeHtml (JValue finished) st) = Fulfilled payload
                 \<and> document_id payload = document_id finished)))"
proof -
  have a: "width (handle_image_event escapeHtml (JValue data) st) = 20 + p * (8 / 10)"
    if "etype data = Some ''progress''" "percent data = Some p" "0 \<le> p"
       "\<not> (truthy (stage data) \<and> startsWith (the (stage data)) ''CAPTION_CHUNK:'')"
    using that
    by (auto simp: handle_image_event_def image_progress_base_def image_progress_stage_def
          image_total_progress_def set_width_def Let_def)
  have w: "width (handle_image_event escapeHtml (JValue finished) st) = 100"
    if "etype finished = Some ''complete''"
    using that by (simp add: handle_image_event_def complete_event_effect)
  have r: "promise (handle_image_event escapeHtml (JValue finished) st) = Fulfilled finished"
    if "etype finished = Some ''complete''" "promise st = Pending"
       "displayUploadResults escapeHtml finished \<noteq> None"
    using that by (simp add: image_promise_step)
  from a w r show ?thesis by blast
qed

theorem image_progress_then_complete_witness:
  "width (handle_image_event sample_escapeHtml (JValue progress_50) initial_state) = 60
   \<and> width (handle_image_event sample_escapeHtml (JValue complete_abc123)
               (handle_image_event sample_escapeHtml (JValue progress_50) initial_state)) = 100
   \<and> promise (handle_image_event sample_escapeHtml (JValue complete_abc123)
               (handle_image_event sample_escapeHtml (JValue progress_50) initial_state))
        = Fulfilled complete_abc123
   \<and> document_id complete_abc123 = Some ''abc123''"
proof -
  have s: "promise (handle_image_event sample_escapeHtml (JValue progress_50) initial_state) = Pending"
    by (simp add: image_promise_step progress_50_def initial_state_def)
  have e: "etype progress_50 = Some ''progress'' \<and> percent progress_50 = Some 50
      \<and> \<not> (truthy (stage progress_50) \<and> startsWith (the (stage progress_50)) ''CAPTION_CHUNK:'')"
    by (simp add: progress_50_def truthy_def)
  have c: "etype complete_abc123 = Some ''complete''
      \<and> document_id complete_abc123 = Some ''abc123''"
    by (simp add: complete_abc123_def)
  have d: "displayUploadResults sample_escapeHtml complete_abc123 \<noteq> None"
    by (simp add: complete_abc123_displayed)
  show ?thesis
    using image_progress_then_complete
            [where data = progress_50 and p = 50 and st = initial_state
               and escapeHtml = sample_escapeHtml and finished = complete_abc123]
          image_progress_then_complete
            [where data = progress_50 and p = 50 and escapeHtml = sample_escapeHtml
               and finished = complete_abc123
               and st = "handle_image_event sample_escapeHtml (JValue progress_50) initial_state"]
          s e c d
    by simp
qed

text \<open>
  The example of the specification, from the text of the response to the display.
\<close>

lemma spec_example_image:
  "width (uploadImageWithStreaming sample_parse sample_escapeHtml
     [ReadyStateChange 3 (data_line line_progress_50)]) = 60
   \<and> width (uploadImageWithStreaming sample_parse sample_escapeHtml
     [ReadyStateChange 3 (data_line line_progress_50),
      ReadyStateChange 4 (data_line line_progress_50 @ data_line line_complete_abc123)]) = 100
   \<and> promise (uploadImageWithStreaming sample_parse sample_escapeHtml
     [ReadyStateChange 3 (data_line line_progress_50),
      ReadyStateChange 4 (data_line line_progress_50 @ data_line line_complete_abc123)])
       = Fulfilled complete_abc123"
proof -
  have a: "\<forall>ps\<in>set [[line_progress_50], [line_complete_abc123]].
             \<forall>p\<in>set ps. CHR 0x0A \<notin> set p \<and> sample_parse p \<noteq> None"
    by (simp add: sample_lines)
  have b: "\<forall>ps\<in>set [[line_progress_50]].
             \<forall>p\<in>set ps. CHR 0x0A \<notin> set p \<and> sample_parse p \<noteq> None"
    by (simp add: sample_lines)
  have one: "uploadImageWithStreaming sample_parse sample_escapeHtml
       [ReadyStateChange 3 (data_line line_progress_50)]
     = (handle_image_event sample_escapeHtml (JValue progress_50) initial_state)
         \<lparr>buffer := data_line line_progress_50\<rparr>"
    using decoder_run [where handle = "handle_image_event sample_escapeHtml"
            and states = "[3]" and st = initial_state, OF image_ignores_buffer b]
    by (simp add: uploadImageWithStreaming_def sample_lines initial_state_def)
  have two: "uploadImageWithStreaming sample_parse sample_escapeHtml
     [ReadyStateChange 3 (data_line line_progress_50),
      ReadyStateChange 4 (data_line line_progress_50 @ data_line line_complete_abc123)]
     = (handle_image_event sample_escapeHtml (JValue complete_abc123)
          (handle_image_event sample_escapeHtml (JValue progress_50) initial_state))
         \<lparr>buffer := data_line line_progress_50 @ data_line line_complete_abc123\<rparr>"
    using decoder_run [where handle = "handle_image_event sample_escapeHtml"
            and states = "[3, 4]" and st = initial_state, OF image_ignores_buffer a]
    by (simp add: uploadImageWithStreaming_def sample_lines initial_state_def)
  have w1: "width (handle_image_event sample_escapeHtml (JValue progress_50) initial_state) = 60"
    by (simp add: handle_image_event_def image_progress_base_def image_progress_stage_def
          image_total_progress_def progress_50_def truthy_def set_width_def)
  have w2: "width (handle_image_event sample_escapeHtml (JValue complete_abc123) st) = 100" for st
    by (simp add: handle_image_event_def complete_event_effect complete_abc123_def)
  have p2: "promise (handle_image_event sample_escapeHtml (JValue complete_abc123)
              (handle_image_event sample_escapeHtml (JValue progress_50) initial_state))
        = Fulfilled complete_abc123"
    by (simp add: image_promise_step complete_abc123_displayed)
       (simp add: complete_abc123_def progress_50_def initial_state_def)
  show ?thesis by (simp add: one two w1 w2 p2)
qed

lemma captionProgress_le_one: "captionProgress cb \<le> 1"
  by (simp add: captionProgress_def)

lemma captionProgress_nonneg: "0 \<le> captionProgress cb"
  by (simp add: captionProgress_def)

lemma captionProgress_saturates: "30 \<le> wordCount cb \<Longrightarrow> captionProgress cb = 1"
  by (simp add: captionProgress_def min_def)

lemma caption_total_progress_eq: "caption_total_progress cb = 44 + captionProgress cb * 24"
  by (simp add: caption_total_progress_def)

lemma image_caption_chunk:
  assumes "etype data = Some ''progress''" and "truthy (stage data)"
      and "startsWith (the (stage data)) ''CAPTION_CHUNK:''"
  shows "captionBuffer (handle_image_event escapeHtml (JValue data) st)
           = captionBuffer st @ drop (length ''CAPTION_CHUNK:'') (the (stage data))"
    and "width (handle_image_event escapeHtml (JValue data) st)
           = 44 + captionProgress
               (captionBuffer st @ drop (length ''CAPTION_CHUNK:'') (the (stage data))) * 24"
    and "statusText (handle_image_event escapeHtml (JValue data) st)
           = captionBuffer st @ drop (length ''CAPTION_CHUNK:'') (the (stage data))"
proof -
  let ?cb = "captionBuffer st @ drop (length ''CAPTION_CHUNK:'') (the (stage data))"
  have v: "0 \<le> 44 + captionProgress ?cb * 24"
    using captionProgress_nonneg [of ?cb] by simp
  show "captionBuffer (handle_image_event escapeHtml (JValue data) st) = ?cb"
    using assms
    by (simp add: handle_image_event_def image_progress_stage_def image_progress_base_def Let_def)
  show "width (handle_image_event escapeHtml (JValue data) st) = 44 + captionProgress ?cb * 24"
    using assms v
    by (simp add: handle_image_event_def image_progress_stage_def image_progress_base_def
          Let_def caption_total_progress_eq)
  show "statusText (handle_image_event escapeHtml (JValue data) st) = ?cb"
    using assms
    by (simp add: handle_image_event_def image_progress_stage_def image_progress_base_def Let_def)
qed

text \<open>
  \<^const>\<open>wordCount\<close> against the number of words: they agree on every caption that has a
  word, and a blank caption counts as one word, since splitting the empty text gives one
  empty piece.
\<close>

lemma words_from_spaces: "\<forall>c\<in>set v. is_space c \<Longrightarrow> words_from b v = 0"
  by (induction v arbitrary: b) simp_all

lemma words_from_append_spaces:
  "\<forall>c\<in>set v. is_space c \<Longrightarrow> words_from b (u @ v) = words_from b u"
  by (induction u arbitrary: b) (simp_all add: words_from_spaces)

lemma words_from_dropWhile: "words_from False (dropWhile is_space s) = words_from False s"
  by (induction s) simp_all

lemma words_from_head:
  "t \<noteq> [] \<Longrightarrow> \<not> is_space (hd t) \<Longrightarrow> words_from False t = Suc (words_from True t)"
  by (cases t) simp_all

lemma trim_decomp:
  "dropWhile is_space s = trim s @ rev (takeWhile is_space (rev (dropWhile is_space s)))"
  unfolding trim_def by (metis rev_append rev_rev_ident takeWhile_dropWhile_id)

lemma number_of_words_trim: "number_of_words (trim s) = number_of_words s"
proof -
  have "\<forall>c\<in>set (rev (takeWhile is_space (rev (dropWhile is_space s)))). is_space c"
    by (auto dest: set_takeWhileD)
  then have "words_from False (dropWhile is_space s) = words_from False (trim s)"
    using trim_decomp [of s] words_from_append_spaces by metis
  then show ?thesis by (simp add: number_of_words_def words_from_dropWhile)
qed

lemma trim_last: "trim s \<noteq> [] \<Longrightarrow> \<not> is_space (last (trim s))"
  by (simp add: trim_def last_rev hd_dropWhile)

lemma trim_hd: "trim s \<noteq> [] \<Longrightarrow> \<not> is_space (hd (trim s))"
proof -
  assume n: "trim s \<noteq> []"
  then have d: "dropWhile is_space s \<noteq> []"
    by (cases "dropWhile is_space s = []") (simp_all add: trim_def)
  have "hd (dropWhile is_space s) = hd (trim s)"
    using trim_decomp [of s] n by (metis hd_append2)
  then show ?thesis using hd_dropWhile [OF d] by simp
qed

lemma split_spaces_acc_length:
  "(t \<noteq> [] \<longrightarrow> \<not> is_space (last t)) \<Longrightarrow>
   length (split_spaces_acc cur t) = Suc (words_from True t)"
proof (induction cur t rule: split_spaces_acc.induct)
  case (1 cur)
  then show ?case by simp
next
  case (2 cur c cs)
  show ?case
  proof (cases "is_space c")
    case True
    let ?r = "dropWhile is_space cs"
    from True "2.prems" have cs: "cs \<noteq> []" "\<not> is_space (last cs)"
      by (auto split: if_splits)
    then have r: "?r \<noteq> []"
      by (metis dropWhile_eq_Nil_conv last_in_set)
    have lr: "last ?r = last cs"
      using r by (metis append_Nil2 last_appendR takeWhile_dropWhile_id)
    have "length (split_spaces_acc [] ?r) = Suc (words_from True ?r)"
      using "2.IH"(1) [OF True] lr cs by simp
    moreover have "words_from False cs = Suc (words_from True ?r)"
      using words_from_head [OF r hd_dropWhile [OF r]] words_from_dropWhile [of cs] by simp
    ultimately show ?thesis using True by simp
  next
    case False
    with "2.prems" have "cs \<noteq> [] \<longrightarrow> \<not> is_space (last cs)" by auto
    then show ?thesis using "2.IH"(2) [OF False] False by simp
  qed
qed

lemma wordCount_eq: "wordCount s = max 1 (number_of_words s)"
proof (cases "trim s = []")
  case True
  then have "number_of_words s = 0"
    using number_of_words_trim [of s] by (simp add: number_of_words_def)
  with True show ?thesis by (simp add: wordCount_def split_spaces_def)
next
  case False
  have w: "wordCount s = Suc (words_from True (trim s))"
    using split_spaces_acc_length [of "trim s" "[]"] trim_last [OF False]
    by (simp add: wordCount_def split_spaces_def)
  have n: "number_of_words s = Suc (words_from True (trim s))"
    using words_from_head [OF False trim_hd [OF False]] number_of_words_trim [of s]
    by (simp add: number_of_words_def)
  from w n show ?thesis by simp
qed

text \<open>
  Where the code agrees with C6: on a caption that has a word the estimate is
  \<open>min (words / 30) 1\<close>; it is 1 from 30 words on and never exceeds 1; a progress event
  whose stage begins with \<^verbatim>\<open>CAPTION_CHUNK:\<close> appends the rest of the stage to the caption
  and sets the width to \<open>20 + 30 * 0.8 + estimate * 30 * 0.8\<close> for the accumulated caption.
\<close>

lemma caption_estimate_on_words:
  "(0 < number_of_words cb \<longrightarrow>
        captionProgress cb = min (of_nat (number_of_words cb) / 30) 1)
   \<and> (30 \<le> number_of_words cb \<longrightarrow> captionProgress cb = 1)
   \<and> captionProgress cb \<le> 1
   \<and> (etype data = Some ''progress'' \<and> truthy (stage data)
        \<and> startsWith (the (stage data)) ''CAPTION_CHUNK:'' \<longrightarrow>
      captionBuffer (handle_image_event escapeHtml (JValue data) st)
        = captionBuffer st @ drop (length ''CAPTION_CHUNK:'') (the (stage data))
      \<and> width (handle_image_event escapeHtml (JValue data) st)
        = 20 + 30 * (8 / 10)
          + captionProgress (captionBuffer (handle_image_event escapeHtml (JValue data) st)) * 30 * (8 / 10))"
proof -
  have e: "captionProgress cb = min (of_nat (max 1 (number_of_words cb)) / 30) 1"
    by (simp only: captionProgress_def wordCount_eq)
  have p: "0 < number_of_words cb \<longrightarrow> max 1 (number_of_words cb) = number_of_words cb"
    by simp
  have s: "30 \<le> number_of_words cb \<longrightarrow> captionProgress cb = 1"
    using captionProgress_saturates [of cb] by (simp add: wordCount_eq)
  from e p s captionProgress_le_one [of cb] image_caption_chunk [of data escapeHtml st]
  show ?thesis by simp
qed

text \<open>
  C6 fails on the code for a blank caption. The code's word count is
  \<^verbatim>\<open>captionBuffer.trim().split(/\s+/).length\<close>, and splitting the empty text gives one empty
  piece: a caption chunk with an empty payload on a fresh upload leaves a caption of no
  words, for which the code counts one word, so that the estimate is \<open>1 / 30\<close> and the
  width \<open>44.8\<close>, where the word count 0 of the claim gives the estimate 0 and the width 44.
\<close>

theorem blank_caption_estimate:
  "number_of_words [] = 0
   \<and> wordCount [] = 1
   \<and> captionBuffer (handle_image_event sample_escapeHtml (JValue (progress_stage 30 ''CAPTION_CHUNK:''))
        initial_state) = []
   \<and> captionProgress [] = 1 / 30
   \<and> captionProgress [] \<noteq> min (of_nat (number_of_words []) / 30) 1
   \<and> width (handle_image_event sample_escapeHtml (JValue (progress_stage 30 ''CAPTION_CHUNK:''))
        initial_state) = 44 + 4 / 5"
proof -
  have n: "number_of_words [] = 0" by (simp add: number_of_words_def)
  have w: "wordCount [] = 1" by (simp add: wordCount_def trim_def split_spaces_def)
  have p: "captionProgress [] = 1 / 30"
    by (simp add: captionProgress_def w)
  have a: "etype (progress_stage 30 ''CAPTION_CHUNK:'') = Some ''progress''"
       "truthy (stage (progress_stage 30 ''CAPTION_CHUNK:''))"
       "startsWith (the (stage (progress_stage 30 ''CAPTION_CHUNK:''))) ''CAPTION_CHUNK:''"
    by (simp_all add: progress_stage_def truthy_def startsWith_def)
  have g: "stage (progress_stage 30 ''CAPTION_CHUNK:'') = Some ''CAPTION_CHUNK:''"
    by (simp add: progress_stage_def)
  have c: "captionBuffer initial_state = []"
    by (simp add: initial_state_def)
  show ?thesis
    using image_caption_chunk [OF a, of sample_escapeHtml initial_state] by (simp add: n w p g c)
qed

text \<open>
  C2, as stated, fails on a progress event that carries a caption chunk: with percent 50
  and the stage \<^verbatim>\<open>CAPTION_CHUNK:a cat\<close> on a fresh upload, the width left on display is
  \<open>45.6\<close>, not 60.
\<close>

theorem caption_chunk_width_counterexample:
  "etype (progress_stage 50 ''CAPTION_CHUNK:a cat'') = Some ''progress''
   \<and> percent (progress_stage 50 ''CAPTION_CHUNK:a cat'') = Some 50
   \<and> width (handle_image_event sample_escapeHtml
        (JValue (progress_stage 50 ''CAPTION_CHUNK:a cat'')) initial_state) = 228 / 5
   \<and> width (handle_image_event sample_escapeHtml
        (JValue (progress_stage 50 ''CAPTION_CHUNK:a cat'')) initial_state) \<noteq> 20 + 50 * (8 / 10)"
proof -
  have a: "etype (progress_stage 50 ''CAPTION_CHUNK:a cat'') = Some ''progress''"
       "truthy (stage (progress_stage 50 ''CAPTION_CHUNK:a cat''))"
       "startsWith (the (stage (progress_stage 50 ''CAPTION_CHUNK:a cat''))) ''CAPTION_CHUNK:''"
    by (simp_all add: progress_stage_def truthy_def startsWith_def)
  have g: "stage (progress_stage 50 ''CAPTION_CHUNK:a cat'') = Some ''CAPTION_CHUNK:a cat''"
       "percent (progress_stage 50 ''CAPTION_CHUNK:a cat'') = Some 50"
    by (simp_all add: progress_stage_def)
  have c: "captionBuffer initial_state = []"
    by (simp add: initial_state_def)
  have w: "wordCount ''a cat'' = 2"
    by (simp add: wordCount_def split_spaces_def trim_def is_space_def)
  have p: "captionProgress ''a cat'' = 1 / 15"
    by (simp add: captionProgress_def w)
  show ?thesis
    using image_caption_chunk [OF a, of sample_escapeHtml initial_state] a(1)
    by (simp add: g c p)
qed

section \<open>Properties of the pending operation\<close>

lemma resolve_settled: "p \<noteq> Pending \<Longrightarrow> resolve v p = p"
  by (cases p) simp_all

lemma reject_settled: "p \<noteq> Pending \<Longrightarrow> reject r p = p"
  by (cases p) simp_all

lemma fold_settled:
  assumes "\<And>d st. promise st \<noteq> Pending \<Longrightarrow> promise (handle d st) = promise st"
  shows "promise st \<noteq> Pending \<Longrightarrow> promise (fold handle evs st) = promise st"
  using assms by (induction evs arbitrary: st) simp_all

lemma fold_not_terminal:
  assumes "\<And>d st. \<not> terminal_event d \<Longrightarrow> promise (handle d st) = promise st"
  shows "\<forall>d\<in>set evs. \<not> terminal_event d \<Longrightarrow> promise (fold handle evs st) = promise st"
  using assms by (induction evs arbitrary: st) simp_all

lemma image_settled: "promise st \<noteq> Pending \<Longrightarrow> promise (handle_image_event escapeHtml d st) = promise st"
  by (simp add: image_promise_step resolve_settled reject_settled split: json_value.splits)

lemma pdf_settled: "promise st \<noteq> Pending \<Longrightarrow> promise (handle_pdf_event escapeHtml f d st) = promise st"
  by (simp add: pdf_promise_step resolve_settled reject_settled split: json_value.splits)

lemma image_not_terminal: "\<not> terminal_event d \<Longrightarrow> promise (handle_image_event escapeHtml d st) = promise st"
  by (cases d) (auto simp: image_promise_step terminal_event_def)

lemma pdf_not_terminal: "\<not> terminal_event d \<Longrightarrow> promise (handle_pdf_event escapeHtml f d st) = promise st"
  by (cases d) (auto simp: pdf_promise_step terminal_event_def)

text \<open>
  Where the code agrees with C3. On a pending operation, while no terminal event has been
  handled the promise stays pending. The first terminal event settles it when it is an
  \<^verbatim>\<open>error\<close> event, which rejects with the detail, or with \<^verbatim>\<open>Upload failed\<close> when the
  detail is absent (or empty), and when it is a \<^verbatim>\<open>complete\<close> event whose results are
  displayed, which fulfils with the event. Whatever events follow, terminal ones included,
  the promise keeps that outcome, in both upload functions.
\<close>

lemma displayed_terminal_event_settles:
  assumes "promise st = Pending" and "\<forall>d\<in>set before. \<not> terminal_event d"
  shows "promise (fold (handle_image_event escapeHtml) before st) = Pending
       \<and> promise (fold (handle_pdf_event escapeHtml reformat) before st) = Pending
       \<and> (etype data = Some ''complete'' \<and> displayUploadResults escapeHtml data \<noteq> None \<longrightarrow>
            promise (fold (handle_image_event escapeHtml) (before @ JValue data # later) st)
                = Fulfilled data
            \<and> promise (fold (handle_pdf_event escapeHtml reformat) (before @ JValue data # later) st)
                = Fulfilled data)
       \<and> (etype data = Some ''error'' \<longrightarrow>
            promise (fold (handle_image_event escapeHtml) (before @ JValue data # later) st)
                = Rejected (Message (or_else (detail data) ''Upload failed''))
            \<and> promise (fold (handle_pdf_event escapeHtml reformat) (before @ JValue data # later) st)
                = Rejected (Message (or_else (detail data) ''Upload failed'')))
       \<and> (etype data = Some ''error'' \<and> detail data = Some m \<and> m \<noteq> [] \<longrightarrow>
            promise (fold (handle_image_event escapeHtml) (before @ JValue data # later) st)
                = Rejected (Message m)
            \<and> promise (fold (handle_pdf_event escapeHtml reformat) (before @ JValue data # later) st)
                = Rejected (Message m))
       \<and> (etype data = Some ''error'' \<and> detail data = None \<longrightarrow>
            promise (fold (handle_image_event escapeHtml) (before @ JValue data # later) st)
                = Rejected (Message ''Upload failed'')
            \<and> promise (fold (handle_pdf_event escapeHtml reformat) (before @ JValue data # later) st)
                = Rejected (Message ''Upload failed''))"
proof -
  let ?settles = "(etype data = Some ''complete'' \<and> displayUploadResults escapeHtml data \<noteq> None)
      \<or> etype data = Some ''error''"
  have i: "promise (fold (handle_image_event escapeHtml) before st) = Pending"
    using fold_not_terminal [of "handle_image_event escapeHtml" before st] assms
    by (simp add: image_not_terminal)
  have p: "promise (fold (handle_pdf_event escapeHtml reformat) before st) = Pending"
    using fold_not_terminal [of "handle_pdf_event escapeHtml reformat" before st] assms
    by (simp add: pdf_not_terminal)
  have il: "promise (fold (handle_image_event escapeHtml) (before @ JValue data # later) st)
      = promise (handle_image_event escapeHtml (JValue data)
          (fold (handle_image_event escapeHtml) before st))"
    if ?settles
  proof -
    have "promise (handle_image_event escapeHtml (JValue data)
        (fold (handle_image_event escapeHtml) before st)) \<noteq> Pending"
      using that i by (auto simp: image_promise_step)
    then show ?thesis
      using fold_settled [of "handle_image_event escapeHtml" _ later] by (simp add: image_settled)
  qed
  have pl: "promise (fold (handle_pdf_event escapeHtml reformat) (before @ JValue data # later) st)
      = promise (handle_pdf_event escapeHtml reformat (JValue data)
          (fold (handle_pdf_event escapeHtml reformat) before st))"
    if ?settles
  proof -
    have "promise (handle_pdf_event escapeHtml reformat (JValue data)
            (fold (handle_pdf_event escapeHtml reformat) before st)) \<noteq> Pending"
      using that p by (auto simp: pdf_promise_step)
    then show ?thesis
      using fold_settled [of "handle_pdf_event escapeHtml reformat" _ later]
      by (simp add: pdf_settled)
  qed
  have o1: "detail data = Some m \<and> m \<noteq> [] \<longrightarrow> or_else (detail data) ''Upload failed'' = m"
    by (simp add: or_else_def truthy_def)
  have o2: "detail data = None \<longrightarrow> or_else (detail data) ''Upload failed'' = ''Upload failed''"
    by (simp add: or_else_def truthy_def)
  have c: "etype data = Some ''complete'' \<and> displayUploadResults escapeHtml data \<noteq> None \<longrightarrow>
            promise (fold (handle_image_event escapeHtml) (before @ JValue data # later) st)
                = Fulfilled data
            \<and> promise (fold (handle_pdf_event escapeHtml reformat) (before @ JValue data # later) st)
                = Fulfilled data"
    using il pl i p by (simp add: image_promise_step pdf_promise_step)
  have e: "etype data = Some ''error'' \<longrightarrow>
            promise (fold (handle_image_event escapeHtml) (before @ JValue data # later) st)
                = Rejected (Message (or_else (detail data) ''Upload failed''))
            \<and> promise (fold (handle_pdf_event escapeHtml reformat) (before @ JValue data # later) st)
                = Rejected (Message (or_else (detail data) ''Upload failed''))"
    using il pl i p by (simp add: image_promise_step pdf_promise_step)
  from i p c e o1 o2 show ?thesis by simp
qed

text \<open>
  The test of the specification: \<^verbatim>\<open>error\<close> then \<^verbatim>\<open>complete\<close>, and the other order.
\<close>

lemma error_then_complete_example:
  "promise (fold (handle_image_event sample_escapeHtml)
      [JValue progress_50, JValue error_disk_full, JValue complete_abc123] initial_state)
     = Rejected (Message ''disk full'')
   \<and> promise (fold (handle_pdf_event sample_escapeHtml sample_reformat)
      [JValue progress_50, JValue complete_abc123, JValue error_disk_full] initial_state)
     = Fulfilled complete_abc123
   \<and> promise (fold (handle_image_event sample_escapeHtml)
      [JValue progress_50, JValue error_no_detail, JValue complete_abc123] initial_state)
     = Rejected (Message ''Upload failed'')"
proof -
  have s: "promise initial_state = Pending"
    by (simp add: initial_state_def)
  have b: "\<forall>d\<in>set [JValue progress_50]. \<not> terminal_event d"
    by (simp add: terminal_event_def progress_50_def)
  have e: "etype error_disk_full = Some ''error'' \<and> detail error_disk_full = Some ''disk full''"
    by (simp add: error_disk_full_def)
  have n: "etype error_no_detail = Some ''error'' \<and> detail error_no_detail = None"
    by (simp add: error_no_detail_def)
  have c: "etype complete_abc123 = Some ''complete''
      \<and> displayUploadResults sample_escapeHtml complete_abc123 \<noteq> None"
    by (simp add: complete_abc123_displayed) (simp add: complete_abc123_def)
  show ?thesis
    using displayed_terminal_event_settles
            [OF s b, where escapeHtml = sample_escapeHtml and reformat = sample_reformat
               and data = error_disk_full and later = "[JValue complete_abc123]"
               and m = "''disk full''"]
          displayed_terminal_event_settles
            [OF s b, where escapeHtml = sample_escapeHtml and reformat = sample_reformat
               and data = complete_abc123 and later = "[JValue error_disk_full]"]
          displayed_terminal_event_settles
            [OF s b, where escapeHtml = sample_escapeHtml and reformat = sample_reformat
               and data = error_no_detail and later = "[JValue complete_abc123]"] e n c
    by (simp add: or_else_def truthy_def)
qed

lemma sample_terminal_lines:
  "sample_parse line_complete_keywords_text = Some (JValue complete_keywords_text)"
  "sample_parse line_error_disk_full = Some (JValue error_disk_full)"
  "CHR 0x0A \<notin> set line_complete_keywords_text"
  "CHR 0x0A \<notin> set line_error_disk_full"
  by (simp_all add: sample_parse_def line_complete_keywords_text_def line_error_disk_full_def)

lemma complete_keywords_text_raises:
  "displayUploadResults escapeHtml complete_keywords_text = None"
  by (simp add: displayUploadResults_def complete_keywords_text_def truthy_def
        keywords_join_raises_def)

text \<open>
  C3 fails on the code. A \<^verbatim>\<open>complete\<close> event whose \<^verbatim>\<open>keywords\<close> field is a text makes
  \<^verbatim>\<open>data.keywords.join\<close> raise inside \<^verbatim>\<open>displayUploadResults\<close>, which runs before
  \<^verbatim>\<open>resolve\<close> inside the \<^verbatim>\<open>try\<close>: the \<^verbatim>\<open>catch\<close> logs, the width is already 100, and
  the promise stays pending. An \<^verbatim>\<open>error\<close> event that follows then rejects the operation:
  the first terminal event of the stream did not settle it. Both upload functions do so,
  from the events and from the text of the response.
\<close>

theorem undisplayed_complete_leaves_pending:
  "terminal_event (JValue complete_keywords_text)
   \<and> promise (handle_image_event sample_escapeHtml (JValue complete_keywords_text) initial_state)
       = Pending
   \<and> width (handle_image_event sample_escapeHtml (JValue complete_keywords_text) initial_state)
       = 100
   \<and> console_errors
       (handle_image_event sample_escapeHtml (JValue complete_keywords_text) initial_state) = 1
   \<and> promise (fold (handle_image_event sample_escapeHtml)
       [JValue complete_keywords_text, JValue error_disk_full] initial_state)
       = Rejected (Message ''disk full'')
   \<and> promise (fold (handle_pdf_event sample_escapeHtml sample_reformat)
       [JValue complete_keywords_text, JValue error_disk_full] initial_state)
       = Rejected (Message ''disk full'')
   \<and> promise (uploadPdfWithStreaming sample_parse sample_escapeHtml sample_reformat
       [ReadyStateChange 4
          (data_line line_complete_keywords_text @ data_line line_error_disk_full)])
       = Rejected (Message ''disk full'')"
proof -
  have t: "terminal_event (JValue complete_keywords_text)"
    by (simp add: terminal_event_def complete_keywords_text_def)
  have c: "etype complete_keywords_text = Some ''complete''"
    by (simp add: complete_keywords_text_def)
  have e: "etype error_disk_full = Some ''error''" "detail error_disk_full = Some ''disk full''"
    by (simp_all add: error_disk_full_def)
  have s: "promise initial_state = Pending" "console_errors initial_state = 0"
    by (simp_all add: initial_state_def)
  have p1: "promise (handle_image_event sample_escapeHtml (JValue complete_keywords_text)
      initial_state) = Pending"
    by (simp add: image_promise_step c complete_keywords_text_raises s)
  have w1: "width (handle_image_event sample_escapeHtml (JValue complete_keywords_text)
      initial_state) = 100"
    by (simp add: handle_image_event_def c complete_event_effect)
  have l1: "console_errors (handle_image_event sample_escapeHtml (JValue complete_keywords_text)
      initial_state) = 1"
    by (simp add: handle_image_event_def c complete_event_effect complete_keywords_text_raises s)
  have p2: "promise (handle_pdf_event sample_escapeHtml sample_reformat
      (JValue complete_keywords_text) initial_state) = Pending"
    by (simp add: pdf_promise_step c complete_keywords_text_raises s)
  have o: "or_else (Some ''disk full'') ''Upload failed'' = ''disk full''"
    by (simp add: or_else_def truthy_def)
  have f1: "promise (fold (handle_image_event sample_escapeHtml)
       [JValue complete_keywords_text, JValue error_disk_full] initial_state)
       = Rejected (Message ''disk full'')"
    by (simp add: image_promise_step [of _ "JValue error_disk_full"] e p1 o)
  have f2: "promise (fold (handle_pdf_event sample_escapeHtml sample_reformat)
       [JValue complete_keywords_text, JValue error_disk_full] initial_state)
       = Rejected (Message ''disk full'')"
    by (simp add: pdf_promise_step [of _ _ "JValue error_disk_full"] e p2 o)
  have a: "\<forall>ps\<in>set [[line_complete_keywords_text, line_error_disk_full]].
             \<forall>p\<in>set ps. CHR 0x0A \<notin> set p \<and> sample_parse p \<noteq> None"
    by (simp add: sample_terminal_lines)
  have u: "uploadPdfWithStreaming sample_parse sample_escapeHtml sample_reformat
       [ReadyStateChange 4
          (data_line line_complete_keywords_text @ data_line line_error_disk_full)]
     = (fold (handle_pdf_event sample_escapeHtml sample_reformat)
          [JValue complete_keywords_text, JValue error_disk_full] initial_state)
         \<lparr>buffer := data_line line_complete_keywords_text @ data_line line_error_disk_full\<rparr>"
    using decoder_run [where handle = "handle_pdf_event sample_escapeHtml sample_reformat"
            and states = "[4]" and st = initial_state, OF pdf_ignores_buffer a]
    by (simp add: uploadPdfWithStreaming_def sample_terminal_lines initial_state_def)
  have f3: "promise (uploadPdfWithStreaming sample_parse sample_escapeHtml sample_reformat
       [ReadyStateChange 4
          (data_line line_complete_keywords_text @ data_line line_error_disk_full)])
       = Rejected (Message ''disk full'')"
    unfolding u using f2 by simp
  from t p1 w1 l1 f1 f2 f3 show ?thesis by blast
qed

section \<open>Properties of the PDF upload\<close>

lemma jsonProgress_bounds: "0 \<le> jsonProgress jb" "jsonProgress jb \<le> 1"
  by (simp_all add: jsonProgress_def)

lemma jsonProgress_full: "2000 \<le> length jb \<Longrightarrow> jsonProgress jb = 1"
  by (simp add: jsonProgress_def min_def)

lemma json_total_progress_eq: "json_total_progress jb = 50 + jsonProgress jb * 40"
  by (simp add: json_total_progress_def)

lemma append_structured_effect:
  "jsonBuffer (append_structured f c st) = jsonBuffer st @ c"
  "width (append_structured f c st) = 50 + jsonProgress (jsonBuffer st @ c) * 40"
  "statusText (append_structured f c st) = ''Structuring document...''"
  "captionBuffer (append_structured f c st) = captionBuffer st"
  "streamingJson (append_structured f c st) = Some (displayStreamingJsonChunk f c (jsonBuffer st @ c))"
  using jsonProgress_bounds [of "jsonBuffer st @ c"]
  by (simp_all add: append_structured_def Let_def json_total_progress_eq set_width_def)

lemma full_buffer_progress:
  "jsonProgress (replicate 2000 (CHR ''x'')) = 1"
  by (simp add: jsonProgress_def)

text \<open>
  C5, as amended. In the PDF upload, a progress event whose stage begins with
  \<^verbatim>\<open>STRUCTURED_CHUNK:\<close> appends the rest of the stage to the accumulated JSON text; the
  estimate is \<open>min (length / 2000) 1\<close> of the accumulated text, and the width is
  \<open>50 + estimate * 40\<close>: it lies between 50 and 90, and is 90 from 2000 characters on.
\<close>

theorem structured_chunk_progress:
  assumes "etype data = Some ''progress''"
      and "truthy (stage data)"
      and "startsWith (the (stage data)) ''STRUCTURED_CHUNK:''"
  shows "jsonBuffer (handle_pdf_event escapeHtml reformat (JValue data) st)
           = jsonBuffer st @ drop (length ''STRUCTURED_CHUNK:'') (the (stage data))
       \<and> jsonProgress (jsonBuffer (handle_pdf_event escapeHtml reformat (JValue data) st))
           = min (of_nat (length (jsonBuffer (handle_pdf_event escapeHtml reformat (JValue data) st))) / 2000) 1
       \<and> width (handle_pdf_event escapeHtml reformat (JValue data) st)
           = 50 + jsonProgress (jsonBuffer (handle_pdf_event escapeHtml reformat (JValue data) st)) * 40
       \<and> 50 \<le> width (handle_pdf_event escapeHtml reformat (JValue data) st)
       \<and> width (handle_pdf_event escapeHtml reformat (JValue data) st) \<le> 90
       \<and> (2000 \<le> length (jsonBuffer (handle_pdf_event escapeHtml reformat (JValue data) st)) \<longrightarrow>
            width (handle_pdf_event escapeHtml reformat (JValue data) st) = 90)"
proof -
  let ?jb = "jsonBuffer st @ drop (length ''STRUCTURED_CHUNK:'') (the (stage data))"
  have h: "handle_pdf_event escapeHtml reformat (JValue data) st
             = append_structured reformat (drop (length ''STRUCTURED_CHUNK:'') (the (stage data))) (set_width (percent data) st)"
    using assms by (simp add: handle_pdf_event_def pdf_progress_stage_def)
  have b: "jsonBuffer (handle_pdf_event escapeHtml reformat (JValue data) st) = ?jb"
    by (simp add: h append_structured_effect)
  have w: "width (handle_pdf_event escapeHtml reformat (JValue data) st) = 50 + jsonProgress ?jb * 40"
    by (simp add: h append_structured_effect)
  show ?thesis
    using jsonProgress_bounds [of ?jb] jsonProgress_full [of ?jb]
    by (simp add: b w) (simp add: jsonProgress_def)
qed

theorem structured_chunk_progress_witness:
  \<open>etype (progress_stage 40 ''STRUCTURED_CHUNK:{"title":'') = Some ''progress''
   \<and> truthy (stage (progress_stage 40 ''STRUCTURED_CHUNK:{"title":''))
   \<and> startsWith (the (stage (progress_stage 40 ''STRUCTURED_CHUNK:{"title":''))) ''STRUCTURED_CHUNK:''
   \<and> jsonBuffer (handle_pdf_event sample_escapeHtml sample_reformat
        (JValue (progress_stage 40 ''STRUCTURED_CHUNK:{"title":'')) initial_state) = ''{"title":''
   \<and> width (handle_pdf_event sample_escapeHtml sample_reformat
        (JValue (progress_stage 40 ''STRUCTURED_CHUNK:{"title":'')) initial_state) = 50 + 9 / 50\<close>
proof -
  have a: \<open>etype (progress_stage 40 ''STRUCTURED_CHUNK:{"title":'') = Some ''progress''\<close>
    by (simp add: progress_stage_def)
  have b: \<open>truthy (stage (progress_stage 40 ''STRUCTURED_CHUNK:{"title":''))\<close>
    by (simp add: progress_stage_def truthy_def)
  have c: \<open>startsWith (the (stage (progress_stage 40 ''STRUCTURED_CHUNK:{"title":''))) ''STRUCTURED_CHUNK:''\<close>
    by (simp add: progress_stage_def startsWith_def)
  have s: \<open>stage (progress_stage 40 ''STRUCTURED_CHUNK:{"title":'') = Some ''STRUCTURED_CHUNK:{"title":''\<close>
    by (simp add: progress_stage_def)
  show ?thesis
    using structured_chunk_progress
            [OF a b c, where escapeHtml = sample_escapeHtml and reformat = sample_reformat
               and st = initial_state] a b c
    by (simp add: s initial_state_def jsonProgress_def)
qed

text \<open>
  C5, as stated, fails: with 2000 accumulated characters the estimate is 1 and the width
  is 90, not 100.
\<close>

theorem structured_chunk_band_counterexample:
  "jsonProgress (jsonBuffer (handle_pdf_event sample_escapeHtml sample_reformat
       (JValue (progress_stage 50 (''STRUCTURED_CHUNK:'' @ replicate 2000 (CHR ''x''))))
       initial_state)) = 1
   \<and> width (handle_pdf_event sample_escapeHtml sample_reformat
       (JValue (progress_stage 50 (''STRUCTURED_CHUNK:'' @ replicate 2000 (CHR ''x''))))
       initial_state) = 90"
proof -
  have h: "handle_pdf_event sample_escapeHtml sample_reformat
       (JValue (progress_stage 50 (''STRUCTURED_CHUNK:'' @ replicate 2000 (CHR ''x''))))
       initial_state
     = append_structured sample_reformat (replicate 2000 (CHR ''x''))
         (set_width (Some 50) initial_state)"
    by (simp add: handle_pdf_event_def pdf_progress_stage_def progress_stage_def truthy_def
          startsWith_def)
  have j: "jsonBuffer initial_state = []"
    by (simp add: initial_state_def)
  show ?thesis
    unfolding h by (simp add: append_structured_effect j full_buffer_progress)
qed

lemma image_plain_stage:
  assumes "etype data = Some ''progress''" and "stage data = Some s"
      and "\<not> startsWith s ''CAPTION_CHUNK:''" and "\<not> startsWith s ''OCR_TEXT:''"
  shows "statusText (handle_image_event escapeHtml (JValue data) st) = s"
    and "captionBuffer (handle_image_event escapeHtml (JValue data) st) = captionBuffer st"
    and "jsonBuffer (handle_image_event escapeHtml (JValue data) st) = jsonBuffer st"
  using assms
  by (simp_all add: handle_image_event_def image_progress_stage_def image_progress_base_def
        text_of_def)

lemma pdf_plain_stage:
  assumes "etype data = Some ''progress''" and "stage data = Some s"
      and "\<not> startsWith s ''STRUCTURED_CHUNK:''" and "s = [] \<or> s \<in> set pdf_status_stages"
  shows "statusText (handle_pdf_event escapeHtml f (JValue data) st) = s"
    and "captionBuffer (handle_pdf_event escapeHtml f (JValue data) st) = captionBuffer st"
    and "jsonBuffer (handle_pdf_event escapeHtml f (JValue data) st) = jsonBuffer st"
  using assms
  by (auto simp: handle_pdf_event_def pdf_progress_stage_def text_of_def truthy_def)

lemma pdf_other_stage:
  assumes "etype data = Some ''progress''" and "stage data = Some s"
      and "\<not> startsWith s ''STRUCTURED_CHUNK:''" and "s \<noteq> []" and "s \<notin> set pdf_status_stages"
  shows "statusText (handle_pdf_event escapeHtml f (JValue data) st) = ''Structuring document...''"
    and "jsonBuffer (handle_pdf_event escapeHtml f (JValue data) st) = jsonBuffer st @ s"
  using assms
  by (simp_all add: handle_pdf_event_def pdf_progress_stage_def truthy_def append_structured_effect)

text \<open>
  C8, as amended. Let the stage of a progress event be a string that begins with none of
  \<^verbatim>\<open>CAPTION_CHUNK:\<close>, \<^verbatim>\<open>OCR_TEXT:\<close>, \<^verbatim>\<open>STRUCTURED_CHUNK:\<close>. The image upload shows
  it as it is in the status text and appends it to no accumulator. The PDF upload does so
  when the stage is empty or one of its nine status texts; any other stage is appended to
  the accumulated JSON text, and the status text is \<^verbatim>\<open>Structuring document...\<close>.
\<close>

theorem plain_stage_display:
  assumes "etype data = Some ''progress''" and "stage data = Some s"
      and "\<not> startsWith s ''CAPTION_CHUNK:''" and "\<not> startsWith s ''OCR_TEXT:''"
      and "\<not> startsWith s ''STRUCTURED_CHUNK:''"
  shows "statusText (handle_image_event escapeHtml (JValue data) st) = s
       \<and> captionBuffer (handle_image_event escapeHtml (JValue data) st) = captionBuffer st
       \<and> jsonBuffer (handle_image_event escapeHtml (JValue data) st) = jsonBuffer st
       \<and> (s = [] \<or> s \<in> set pdf_status_stages \<longrightarrow>
            statusText (handle_pdf_event escapeHtml reformat (JValue data) st) = s
            \<and> captionBuffer (handle_pdf_event escapeHtml reformat (JValue data) st) = captionBuffer st
            \<and> jsonBuffer (handle_pdf_event escapeHtml reformat (JValue data) st) = jsonBuffer st)
       \<and> (s \<noteq> [] \<and> s \<notin> set pdf_status_stages \<longrightarrow>
            statusText (handle_pdf_event escapeHtml reformat (JValue data) st) = ''Structuring document...''
            \<and> jsonBuffer (handle_pdf_event escapeHtml reformat (JValue data) st) = jsonBuffer st @ s)"
  using image_plain_stage [OF assms(1-4), where escapeHtml = escapeHtml and st = st]
        pdf_plain_stage [OF assms(1,2,5), where escapeHtml = escapeHtml and f = reformat
          and st = st]
        pdf_other_stage [OF assms(1,2,5), where escapeHtml = escapeHtml and f = reformat
          and st = st]
  by blast

theorem plain_stage_display_witness:
  "statusText (handle_image_event sample_escapeHtml (JValue (progress_stage 10 ''Loading model'')) initial_state)
      = ''Loading model''
   \<and> statusText (handle_pdf_event sample_escapeHtml sample_reformat
        (JValue (progress_stage 10 ''Generating keywords'')) initial_state) = ''Generating keywords''
   \<and> jsonBuffer (handle_pdf_event sample_escapeHtml sample_reformat
        (JValue (progress_stage 10 ''Generating keywords'')) initial_state) = []
   \<and> jsonBuffer (handle_pdf_event sample_escapeHtml sample_reformat
        (JValue (progress_stage 10 ''Loading model'')) initial_state) = ''Loading model''"
proof -
  have e: "\<And>s. etype (progress_stage 10 s) = Some ''progress''"
    and g: "\<And>s. stage (progress_stage 10 s) = Some s"
    by (simp_all add: progress_stage_def)
  have n1: "\<not> startsWith ''Loading model'' ''CAPTION_CHUNK:''"
       "\<not> startsWith ''Loading model'' ''OCR_TEXT:''"
       "\<not> startsWith ''Loading model'' ''STRUCTURED_CHUNK:''"
    by (simp_all add: startsWith_def)
  have n2: "\<not> startsWith ''Generating keywords'' ''CAPTION_CHUNK:''"
       "\<not> startsWith ''Generating keywords'' ''OCR_TEXT:''"
       "\<not> startsWith ''Generating keywords'' ''STRUCTURED_CHUNK:''"
    by (simp_all add: startsWith_def)
  have m1: "''Loading model'' \<noteq> [] \<and> ''Loading model'' \<notin> set pdf_status_stages"
    by (simp add: pdf_status_stages_def)
  have m2: "''Generating keywords'' \<in> set pdf_status_stages"
    by (simp add: pdf_status_stages_def)
  show ?thesis
    using plain_stage_display
            [OF e g n1, where escapeHtml = sample_escapeHtml and reformat = sample_reformat
               and st = initial_state]
          plain_stage_display
            [OF e g n2, where escapeHtml = sample_escapeHtml and reformat = sample_reformat
               and st = initial_state] m1 m2
    by (simp add: initial_state_def)
qed

text \<open>
  C8, as stated, fails in the PDF upload: the stage \<^verbatim>\<open>Loading model\<close> begins with none of
  the prefixes, is not shown, and is appended to the accumulated JSON text.
\<close>

theorem pdf_unlisted_stage_counterexample:
  "\<not> startsWith ''Loading model'' ''CAPTION_CHUNK:''
   \<and> \<not> startsWith ''Loading model'' ''OCR_TEXT:''
   \<and> \<not> startsWith ''Loading model'' ''STRUCTURED_CHUNK:''
   \<and> statusText (handle_pdf_event sample_escapeHtml sample_reformat
        (JValue (progress_stage 10 ''Loading model'')) initial_state) = ''Structuring document...''
   \<and> jsonBuffer initial_state = []
   \<and> jsonBuffer (handle_pdf_event sample_escapeHtml sample_reformat
        (JValue (progress_stage 10 ''Loading model'')) initial_state) = ''Loading model''"
  by (simp add: startsWith_def handle_pdf_event_def pdf_progress_stage_def progress_stage_def
        truthy_def pdf_status_stages_def append_structured_effect initial_state_def)

section \<open>Properties of the partial-JSON pane\<close>

lemma net_snoc:
  "net a b (pre @ [c]) = net a b pre + (if c = a then 1 else 0) - (if c = b then 1 else 0)"
  by (simp add: net_def)

lemma complete_at_here:
  "complete_at (pre @ c # cs) (length pre) \<longleftrightarrow>
     (c = CHR ''}'' \<or> c = CHR '']'')
     \<and> net (CHR ''{'') (CHR ''}'') (pre @ [c]) = 0 \<and> net (CHR ''['') (CHR '']'') (pre @ [c]) = 0"
  by (simp add: complete_at_def)

lemma scan_chunk_spec:
  "(scan_chunk cs (int (length pre)) (net (CHR ''{'') (CHR ''}'') pre)
        (net (CHR ''['') (CHR '']'') pre) l0 = l0
      \<and> (\<forall>i\<ge>length pre. \<not> complete_at (pre @ cs) i))
   \<or> (\<exists>i\<ge>length pre.
        scan_chunk cs (int (length pre)) (net (CHR ''{'') (CHR ''}'') pre)
          (net (CHR ''['') (CHR '']'') pre) l0 = int i
        \<and> complete_at (pre @ cs) i \<and> (\<forall>j>i. \<not> complete_at (pre @ cs) j))"
  (is "?none cs pre l0 \<or> ?some cs pre l0")
proof (induction cs arbitrary: pre l0)
  case Nil
  then show ?case by (simp add: complete_at_def)
next
  case (Cons c cs)
  let ?b = "net (CHR ''{'') (CHR ''}'') (pre @ [c])"
  let ?k = "net (CHR ''['') (CHR '']'') (pre @ [c])"
  let ?here = "?b = 0 \<and> ?k = 0 \<and> (c = CHR ''}'' \<or> c = CHR '']'')"
  have step: "scan_chunk (c # cs) (int (length pre)) (net (CHR ''{'') (CHR ''}'') pre)
        (net (CHR ''['') (CHR '']'') pre) l0
      = scan_chunk cs (int (length (pre @ [c]))) ?b ?k
          (if ?here then int (length pre) else l0)"
    by (simp add: net_snoc Let_def add.commute)
  have here: "complete_at (pre @ c # cs) (length pre) \<longleftrightarrow> ?here"
    using complete_at_here [of pre c cs] by auto
  have later: "(\<forall>i\<ge>length (pre @ [c]). \<not> complete_at (pre @ c # cs) i)
      \<longleftrightarrow> (\<forall>i>length pre. \<not> complete_at (pre @ c # cs) i)"
    by (simp add: Suc_le_eq)
  have app: "(pre @ [c]) @ cs = pre @ c # cs" by simp
  show ?case
  proof (cases ?here)
    case True
    then have s: "scan_chunk (c # cs) (int (length pre)) (net (CHR ''{'') (CHR ''}'') pre)
        (net (CHR ''['') (CHR '']'') pre) l0
      = scan_chunk cs (int (length (pre @ [c]))) ?b ?k (int (length pre))"
      unfolding step by (simp del: scan_chunk.simps)
    from Cons.IH [of "pre @ [c]" "int (length pre)"] show ?thesis
    proof
      assume "?none cs (pre @ [c]) (int (length pre))"
      then have "scan_chunk (c # cs) (int (length pre)) (net (CHR ''{'') (CHR ''}'') pre)
            (net (CHR ''['') (CHR '']'') pre) l0 = int (length pre)"
          and "\<forall>j>length pre. \<not> complete_at (pre @ c # cs) j"
        unfolding s app later by blast+
      moreover have "complete_at (pre @ c # cs) (length pre)"
        using True here by simp
      ultimately have "?some (c # cs) pre l0"
        by (intro exI [of _ "length pre"]) (simp del: scan_chunk.simps)
      then show ?thesis ..
    next
      assume "?some cs (pre @ [c]) (int (length pre))"
      then obtain i where "length (pre @ [c]) \<le> i"
          "scan_chunk (c # cs) (int (length pre)) (net (CHR ''{'') (CHR ''}'') pre)
            (net (CHR ''['') (CHR '']'') pre) l0 = int i"
          "complete_at (pre @ c # cs) i" "\<forall>j>i. \<not> complete_at (pre @ c # cs) j"
        unfolding s app by blast
      then have "?some (c # cs) pre l0"
        by (intro exI [of _ i]) (simp del: scan_chunk.simps)
      then show ?thesis ..
    qed
  next
    case False
    then have e: "(if ?here then int (length pre) else l0) = l0"
      by (rule if_not_P)
    have s: "scan_chunk (c # cs) (int (length pre)) (net (CHR ''{'') (CHR ''}'') pre)
        (net (CHR ''['') (CHR '']'') pre) l0
      = scan_chunk cs (int (length (pre @ [c]))) ?b ?k l0"
      unfolding step e by (rule refl)
    from Cons.IH [of "pre @ [c]" l0] show ?thesis
    proof
      assume "?none cs (pre @ [c]) l0"
      then have "scan_chunk (c # cs) (int (length pre)) (net (CHR ''{'') (CHR ''}'') pre)
            (net (CHR ''['') (CHR '']'') pre) l0 = l0"
          and l: "\<forall>j>length pre. \<not> complete_at (pre @ c # cs) j"
        unfolding s app later by blast+
      moreover have "\<forall>i\<ge>length pre. \<not> complete_at (pre @ c # cs) i"
        using l False here by (metis le_neq_implies_less)
      ultimately have "?none (c # cs) pre l0" by blast
      then show ?thesis ..
    next
      assume "?some cs (pre @ [c]) l0"
      then obtain i where "length (pre @ [c]) \<le> i"
          "scan_chunk (c # cs) (int (length pre)) (net (CHR ''{'') (CHR ''}'') pre)
            (net (CHR ''['') (CHR '']'') pre) l0 = int i"
          "complete_at (pre @ c # cs) i" "\<forall>j>i. \<not> complete_at (pre @ c # cs) j"
        unfolding s app by blast
      then have "?some (c # cs) pre l0"
        by (intro exI [of _ i]) (simp del: scan_chunk.simps)
      then show ?thesis ..
    qed
  qed
qed

lemma lastCompleteIndex_spec:
  "(lastCompleteIndex chunk = - 1 \<and> (\<forall>i. \<not> complete_at chunk i))
   \<or> (\<exists>i. lastCompleteIndex chunk = int i \<and> complete_at chunk i
          \<and> (\<forall>j>i. \<not> complete_at chunk j))"
  using scan_chunk_spec [of chunk "[]" "- 1"]
  by (simp add: lastCompleteIndex_def net_def)

lemma complete_at_positive: "complete_at chunk i \<Longrightarrow> 0 < i"
proof (rule ccontr)
  assume c: "complete_at chunk i" and "\<not> 0 < i"
  then have z: "i = 0" by simp
  with c obtain x xs where x: "chunk = x # xs" by (cases chunk) (auto simp: complete_at_def)
  with c z show False by (auto simp: complete_at_def net_def split: if_splits)
qed

lemma lastCompleteIndex_none:
  "\<forall>i. \<not> complete_at chunk i \<Longrightarrow> lastCompleteIndex chunk = - 1"
  using lastCompleteIndex_spec [of chunk] by auto

lemma lastCompleteIndex_greatest:
  assumes "complete_at chunk i" and "\<forall>j>i. \<not> complete_at chunk j"
  shows "lastCompleteIndex chunk = int i"
proof -
  from lastCompleteIndex_spec [of chunk] assms(1)
  obtain k where k: "lastCompleteIndex chunk = int k" "complete_at chunk k"
      "\<forall>j>k. \<not> complete_at chunk j"
    by auto
  have "k = i"
    using assms k by (meson linorder_neqE_nat)
  with k show ?thesis by simp
qed

lemma complete_at_prefix:
  "i < length obj \<Longrightarrow> complete_at (obj @ rest) i \<longleftrightarrow> complete_at obj i"
  by (simp add: complete_at_def nth_append)

lemma display_none:
  assumes "reformat chunk = None" and "\<forall>i. \<not> complete_at chunk i"
  shows "displayStreamingJsonChunk reformat chunk jsonBuf = chunk @ streaming_marker"
  using assms lastCompleteIndex_none [of chunk]
  by (simp add: displayStreamingJsonChunk_def)

lemma display_some:
  assumes "reformat chunk = None" and "complete_at chunk i" and "\<forall>j>i. \<not> complete_at chunk j"
  shows "displayStreamingJsonChunk reformat chunk jsonBuf
       = (case reformat (take (Suc i) chunk) of Some pretty \<Rightarrow> pretty
          | None \<Rightarrow> take (Suc i) chunk)
         @ (if Suc i < length chunk then streaming_marker else [])"
proof -
  have l: "lastCompleteIndex chunk = int i"
    using assms by (simp add: lastCompleteIndex_greatest)
  have p: "0 < i" using assms(2) by (rule complete_at_positive)
  have n: "nat (int i + 1) = Suc i" by simp
  have "i < length chunk" using assms(2) by (simp add: complete_at_def)
  then have m: "min (length chunk) (Suc i) = Suc i" by simp
  show ?thesis
    using assms(1) p by (simp add: displayStreamingJsonChunk_def l n m Let_def)
qed

lemma complete_at_closing:
  "complete_at chunk j \<Longrightarrow>
   j \<in> set (filter (\<lambda>i. chunk ! i = CHR ''}'' \<or> chunk ! i = CHR '']'') [0..<length chunk])"
  by (auto simp: complete_at_def)

lemma sample_partial_closing:
  "filter (\<lambda>i. sample_partial ! i = CHR ''}'' \<or> sample_partial ! i = CHR '']'')
     [0..<length sample_partial] = [6]"
  by code_simp

lemma display_object:
  assumes "reformat chunk = None" and "chunk = obj @ rest" and "obj \<noteq> []" and "rest \<noteq> []"
      and "complete_at obj (length obj - 1)" and "\<forall>j\<ge>length obj. \<not> complete_at chunk j"
      and "reformat obj = Some pretty"
  shows "displayStreamingJsonChunk reformat chunk jsonBuf = pretty @ streaming_marker"
proof -
  have i: "length obj - 1 < length obj" using assms(3) by simp
  have s: "Suc (length obj - 1) = length obj" using assms(3) by simp
  have a: "complete_at chunk (length obj - 1)"
    using assms(2,5) complete_at_prefix [OF i, of rest] by simp
  have b: "\<forall>j>length obj - 1. \<not> complete_at chunk j"
    using assms(6) i by (metis Suc_leI s)
  have t: "take (length obj) chunk = obj" using assms(2) by simp
  have lt: "length obj < length chunk" using assms(2,4) by simp
  have "displayStreamingJsonChunk reformat chunk jsonBuf
      = (case reformat (take (length obj) chunk) of Some pretty \<Rightarrow> pretty
         | None \<Rightarrow> take (length obj) chunk)
        @ (if length obj < length chunk then streaming_marker else [])"
    using display_some [of reformat chunk "length obj - 1" jsonBuf, OF assms(1) a b]
    unfolding s .
  then show ?thesis by (simp add: t lt assms(7))
qed

lemma pdf_structured_chunk_pane:
  assumes "etype data = Some ''progress''" and "truthy (stage data)"
      and "startsWith (the (stage data)) ''STRUCTURED_CHUNK:''"
  shows "jsonBuffer (handle_pdf_event escapeHtml reformat (JValue data) st)
           = jsonBuffer st @ drop (length ''STRUCTURED_CHUNK:'') (the (stage data))"
    and "streamingJson (handle_pdf_event escapeHtml reformat (JValue data) st)
           = Some (displayStreamingJsonChunk reformat
               (drop (length ''STRUCTURED_CHUNK:'') (the (stage data)))
               (jsonBuffer st @ drop (length ''STRUCTURED_CHUNK:'') (the (stage data))))"
proof -
  have h: "handle_pdf_event escapeHtml reformat (JValue data) st
      = append_structured reformat (drop (length ''STRUCTURED_CHUNK:'') (the (stage data)))
          (set_width (percent data) st)"
    using assms by (simp add: handle_pdf_event_def pdf_progress_stage_def)
  show "jsonBuffer (handle_pdf_event escapeHtml reformat (JValue data) st)
           = jsonBuffer st @ drop (length ''STRUCTURED_CHUNK:'') (the (stage data))"
    unfolding h by (simp add: append_structured_effect)
  show "streamingJson (handle_pdf_event escapeHtml reformat (JValue data) st)
           = Some (displayStreamingJsonChunk reformat
               (drop (length ''STRUCTURED_CHUNK:'') (the (stage data)))
               (jsonBuffer st @ drop (length ''STRUCTURED_CHUNK:'') (the (stage data))))"
    unfolding h by (simp add: append_structured_effect)
qed

lemma sample_partial_boundaries:
  "sample_reformat sample_partial = None"
  "sample_reformat sample_object = Some sample_pretty"
  \<open>sample_partial = sample_object @ '',{"b''\<close>
  "complete_at sample_object (length sample_object - 1)"
  "\<forall>j\<ge>length sample_object. \<not> complete_at sample_partial j"
proof -
  show "sample_reformat sample_partial = None"
    by (simp add: sample_reformat_def sample_partial_def)
  show "sample_reformat sample_object = Some sample_pretty"
    by (simp add: sample_reformat_def sample_object_def sample_pretty_def)
  show \<open>sample_partial = sample_object @ '',{"b''\<close>
    by (simp add: sample_partial_def sample_object_def)
  show "complete_at sample_object (length sample_object - 1)"
    by (simp add: sample_object_def complete_at_def net_def)
  show "\<forall>j\<ge>length sample_object. \<not> complete_at sample_partial j"
  proof (intro allI impI notI)
    fix j
    assume g: "length sample_object \<le> j" and "complete_at sample_partial j"
    from complete_at_closing [OF this(2)] have "j = 6"
      by (simp add: sample_partial_closing)
    moreover have "length sample_object = 7"
      by (simp add: sample_object_def)
    ultimately show False using g by simp
  qed
qed

lemma fragment_no_boundary:
  \<open>sample_reformat ''{"b'' = None\<close>
  \<open>\<forall>i. \<not> complete_at ''{"b'' i\<close>
proof -
  show \<open>sample_reformat ''{"b'' = None\<close>
    by (simp add: sample_reformat_def)
  show \<open>\<forall>i. \<not> complete_at ''{"b'' i\<close>
  proof (intro allI notI)
    fix i
    assume \<open>complete_at ''{"b'' i\<close>
    from complete_at_closing [OF this] show False by simp
  qed
qed

text \<open>
  C4, as amended. Let a progress event with a \<^verbatim>\<open>STRUCTURED_CHUNK:\<close> stage arrive while
  nothing has been accumulated, so that its payload is the whole accumulated payload, and
  let that payload not be valid JSON. The scan counts braces and brackets character by
  character, inside string literals too. When no closing character leaves both counters at
  zero, the pane shows the accumulated payload followed by the streaming marker. Otherwise
  the prefix that ends at the last such character is pretty-printed when it is valid JSON
  and shown as it is when it is not, and the marker follows when text remains after the
  prefix. In particular, for an accumulated payload that is an object that ends where its
  counters are zero and that is valid JSON, followed by further text in which no closing
  character leaves both counters at zero, the pane shows the pretty-printed object followed
  by the marker.
\<close>

theorem partial_json_display:
  assumes "etype data = Some ''progress''" and "truthy (stage data)"
      and "startsWith (the (stage data)) ''STRUCTURED_CHUNK:''"
      and "jsonBuffer st = []"
      and "acc = jsonBuffer (handle_pdf_event escapeHtml reformat (JValue data) st)"
      and "reformat acc = None"
  shows "acc = drop (length ''STRUCTURED_CHUNK:'') (the (stage data))
       \<and> ((\<forall>i. \<not> complete_at acc i) \<longrightarrow>
            streamingJson (handle_pdf_event escapeHtml reformat (JValue data) st)
              = Some (acc @ streaming_marker))
       \<and> (complete_at acc i \<and> (\<forall>j>i. \<not> complete_at acc j) \<longrightarrow>
            streamingJson (handle_pdf_event escapeHtml reformat (JValue data) st)
              = Some ((case reformat (take (Suc i) acc) of Some pretty \<Rightarrow> pretty
                       | None \<Rightarrow> take (Suc i) acc)
                      @ (if Suc i < length acc then streaming_marker else [])))
       \<and> (acc = obj @ rest \<and> obj \<noteq> [] \<and> rest \<noteq> [] \<and> complete_at obj (length obj - 1)
            \<and> (\<forall>j\<ge>length obj. \<not> complete_at acc j) \<and> reformat obj = Some pretty \<longrightarrow>
            streamingJson (handle_pdf_event escapeHtml reformat (JValue data) st)
              = Some (pretty @ streaming_marker))"
proof -
  have a: "acc = drop (length ''STRUCTURED_CHUNK:'') (the (stage data))"
    using pdf_structured_chunk_pane(1) [OF assms(1-3), of escapeHtml reformat st] assms(4,5)
    by simp
  have p: "streamingJson (handle_pdf_event escapeHtml reformat (JValue data) st)
      = Some (displayStreamingJsonChunk reformat acc acc)"
    using pdf_structured_chunk_pane(2) [OF assms(1-3), of escapeHtml reformat st] assms(4) a
    by simp
  have n: "(\<forall>i. \<not> complete_at acc i) \<longrightarrow>
      displayStreamingJsonChunk reformat acc acc = acc @ streaming_marker"
    using display_none [of reformat acc acc, OF assms(6)] by blast
  have g: "complete_at acc i \<and> (\<forall>j>i. \<not> complete_at acc j) \<longrightarrow>
      displayStreamingJsonChunk reformat acc acc
        = (case reformat (take (Suc i) acc) of Some pretty \<Rightarrow> pretty
           | None \<Rightarrow> take (Suc i) acc)
          @ (if Suc i < length acc then streaming_marker else [])"
    using display_some [of reformat acc i acc, OF assms(6)] by blast
  have o: "acc = obj @ rest \<and> obj \<noteq> [] \<and> rest \<noteq> [] \<and> complete_at obj (length obj - 1)
            \<and> (\<forall>j\<ge>length obj. \<not> complete_at acc j) \<and> reformat obj = Some pretty \<longrightarrow>
      displayStreamingJsonChunk reformat acc acc = pretty @ streaming_marker"
    using display_object [of reformat acc obj rest pretty acc, OF assms(6)] by blast
  from a n g o show ?thesis unfolding p by simp
qed

theorem partial_json_display_witness:
  \<open>jsonBuffer initial_state = []
   \<and> jsonBuffer (handle_pdf_event sample_escapeHtml sample_reformat
        (JValue (progress_stage 60 (''STRUCTURED_CHUNK:'' @ sample_partial))) initial_state)
       = sample_partial
   \<and> sample_reformat sample_partial = None
   \<and> streamingJson (handle_pdf_event sample_escapeHtml sample_reformat
        (JValue (progress_stage 60 (''STRUCTURED_CHUNK:'' @ sample_partial))) initial_state)
       = Some (sample_pretty @ streaming_marker)
   \<and> jsonBuffer (handle_pdf_event sample_escapeHtml sample_reformat
        (JValue (progress_stage 60 ''STRUCTURED_CHUNK:{"b'')) initial_state) = ''{"b''
   \<and> sample_reformat ''{"b'' = None
   \<and> streamingJson (handle_pdf_event sample_escapeHtml sample_reformat
        (JValue (progress_stage 60 ''STRUCTURED_CHUNK:{"b'')) initial_state)
       = Some (''{"b'' @ streaming_marker)\<close>
proof -
  have e: "\<And>s. etype (progress_stage 60 (''STRUCTURED_CHUNK:'' @ s)) = Some ''progress''"
    and t: "\<And>s. truthy (stage (progress_stage 60 (''STRUCTURED_CHUNK:'' @ s)))"
    and w: "\<And>s. startsWith (the (stage (progress_stage 60 (''STRUCTURED_CHUNK:'' @ s))))
              ''STRUCTURED_CHUNK:''"
    by (simp_all add: progress_stage_def truthy_def startsWith_def)
  have z: "jsonBuffer initial_state = []"
    by (simp add: initial_state_def)
  have b: "\<And>s. s = jsonBuffer (handle_pdf_event sample_escapeHtml sample_reformat
        (JValue (progress_stage 60 (''STRUCTURED_CHUNK:'' @ s))) initial_state)"
    using pdf_structured_chunk_pane(1)
            [OF e t w, where escapeHtml = sample_escapeHtml and reformat = sample_reformat
               and st = initial_state]
    by (simp add: z progress_stage_def)
  have f: \<open>''STRUCTURED_CHUNK:{"b'' = ''STRUCTURED_CHUNK:'' @ ''{"b''\<close>
    by simp
  have one: "streamingJson (handle_pdf_event sample_escapeHtml sample_reformat
        (JValue (progress_stage 60 (''STRUCTURED_CHUNK:'' @ sample_partial))) initial_state)
       = Some (sample_pretty @ streaming_marker)"
    using partial_json_display
            [where data = "progress_stage 60 (''STRUCTURED_CHUNK:'' @ sample_partial)"
               and st = initial_state and escapeHtml = sample_escapeHtml
               and reformat = sample_reformat and acc = sample_partial
               and obj = sample_object and rest = \<open>'',{"b''\<close> and pretty = sample_pretty,
             OF e t w z b sample_partial_boundaries(1)]
          sample_partial_boundaries(2-5)
    by (simp add: sample_object_def)
  have two: \<open>streamingJson (handle_pdf_event sample_escapeHtml sample_reformat
        (JValue (progress_stage 60 (''STRUCTURED_CHUNK:'' @ ''{"b''))) initial_state)
       = Some (''{"b'' @ streaming_marker)\<close>
    using partial_json_display
            [where data = \<open>progress_stage 60 (''STRUCTURED_CHUNK:'' @ ''{"b'')\<close>
               and st = initial_state and escapeHtml = sample_escapeHtml
               and reformat = sample_reformat and acc = \<open>''{"b''\<close>,
             OF e t w z b fragment_no_boundary(1)]
          fragment_no_boundary(2)
    by blast
  from z b [of sample_partial] b [of \<open>''{"b''\<close>] sample_partial_boundaries(1)
    fragment_no_boundary(1) one two
  show ?thesis unfolding f by simp
qed

text \<open>
  C4, as stated, fails on a complete object followed by further text that closes a bracket
  of its own, here as the first payload of an upload: the prefix taken is the whole
  accumulated payload, which is not valid JSON, so the payload is shown as it is, without
  pretty-printing and without the marker.
\<close>

theorem trailing_bracket_counterexample:
  \<open>jsonBuffer initial_state = []
   \<and> jsonBuffer (handle_pdf_event sample_escapeHtml sample_reformat
        (JValue (progress_stage 60 (''STRUCTURED_CHUNK:'' @ sample_object @ '' [x]'')))
        initial_state) = sample_object @ '' [x]''
   \<and> sample_reformat sample_object = Some sample_pretty
   \<and> sample_reformat (sample_object @ '' [x]'') = None
   \<and> lastCompleteIndex (sample_object @ '' [x]'') = 10
   \<and> length (sample_object @ '' [x]'') = 11
   \<and> streamingJson (handle_pdf_event sample_escapeHtml sample_reformat
        (JValue (progress_stage 60 (''STRUCTURED_CHUNK:'' @ sample_object @ '' [x]'')))
        initial_state) = Some (sample_object @ '' [x]'')
   \<and> streamingJson (handle_pdf_event sample_escapeHtml sample_reformat
        (JValue (progress_stage 60 (''STRUCTURED_CHUNK:'' @ sample_object @ '' [x]'')))
        initial_state) \<noteq> Some (sample_pretty @ streaming_marker)\<close>
  by (simp add: handle_pdf_event_def pdf_progress_stage_def progress_stage_def truthy_def
        startsWith_def append_structured_effect initial_state_def
        sample_reformat_def sample_object_def sample_pretty_def
        displayStreamingJsonChunk_def lastCompleteIndex_def streaming_marker_def)

text \<open>
  The inaccuracy that the specification names: a brace inside a string literal is counted.
  The prefix taken ends inside the literal, is not valid JSON, and is shown as it is.
\<close>

lemma brace_in_string_literal:
  \<open>sample_reformat ''{"a":"}"}x'' = None
   \<and> sample_reformat ''{"a":"}"}'' = Some (''{'' @ [CHR 0x0A] @ ''  "a": "}"'' @ [CHR 0x0A] @ ''}'')
   \<and> displayStreamingJsonChunk sample_reformat ''{"a":"}"}x'' ''{"a":"}"}x''
       = ''{"a":"}'' @ streaming_marker\<close>
  by (simp add: sample_reformat_def displayStreamingJsonChunk_def lastCompleteIndex_def)

text \<open>
  A defect of the code, outside the statement above. The handlers pass the accumulated
  text to \<^verbatim>\<open>displayStreamingJsonChunk\<close> as its third argument (lines 290 and 310), and the
  function never reads it (lines 385 to 454): from the second payload on, the pane is
  computed from the last payload alone, not from the accumulated one. After the payloads
  \<^verbatim>\<open>{"a":1}\<close> and \<^verbatim>\<open>,{"b\<close> the accumulated text is a complete object followed by partial
  text, for which the scan of the accumulated text gives the pretty-printed object and
  the marker; the pane shows the fragment \<^verbatim>\<open>,{"b\<close> and the marker.
\<close>

lemma later_payload_shown_alone:
  \<open>jsonBuffer (fold (handle_pdf_event sample_escapeHtml sample_reformat)
      [JValue (progress_stage 60 ''STRUCTURED_CHUNK:{"a":1}''),
       JValue (progress_stage 70 ''STRUCTURED_CHUNK:,{"b'')] initial_state) = sample_partial
   \<and> displayStreamingJsonChunk sample_reformat sample_partial sample_partial
       = sample_pretty @ streaming_marker
   \<and> streamingJson (fold (handle_pdf_event sample_escapeHtml sample_reformat)
      [JValue (progress_stage 60 ''STRUCTURED_CHUNK:{"a":1}''),
       JValue (progress_stage 70 ''STRUCTURED_CHUNK:,{"b'')] initial_state)
       = Some ('',{"b'' @ streaming_marker)
   \<and> '',{"b'' @ streaming_marker \<noteq> sample_pretty @ streaming_marker\<close>
proof -
  have d: "displayStreamingJsonChunk sample_reformat sample_partial sample_partial
       = sample_pretty @ streaming_marker"
    using display_object [of sample_reformat sample_partial sample_object \<open>'',{"b''\<close>
            sample_pretty sample_partial]
          sample_partial_boundaries
    by (simp add: sample_object_def)
  have j: \<open>jsonBuffer (fold (handle_pdf_event sample_escapeHtml sample_reformat)
      [JValue (progress_stage 60 ''STRUCTURED_CHUNK:{"a":1}''),
       JValue (progress_stage 70 ''STRUCTURED_CHUNK:,{"b'')] initial_state) = sample_partial\<close>
    by (simp add: handle_pdf_event_def pdf_progress_stage_def progress_stage_def truthy_def
          startsWith_def append_structured_effect initial_state_def sample_partial_def)
  have s: \<open>streamingJson (fold (handle_pdf_event sample_escapeHtml sample_reformat)
      [JValue (progress_stage 60 ''STRUCTURED_CHUNK:{"a":1}''),
       JValue (progress_stage 70 ''STRUCTURED_CHUNK:,{"b'')] initial_state)
       = Some ('',{"b'' @ streaming_marker)\<close>
    by (simp add: handle_pdf_event_def pdf_progress_stage_def progress_stage_def truthy_def
          startsWith_def append_structured_effect sample_reformat_def
          displayStreamingJsonChunk_def lastCompleteIndex_def)
  have n: \<open>'',{"b'' @ streaming_marker \<noteq> sample_pretty @ streaming_marker\<close>
    by (simp add: sample_pretty_def)
  from j d s n show ?thesis by blast
qed

section \<open>Properties of the search results\<close>

text \<open>
  C9 fails on the code. A search that returns no result returns from
  \<^verbatim>\<open>displaySearchResults\<close> before the assignment to \<^verbatim>\<open>window.currentSearchResults\<close>:
  after a search with two results and a search with none, the pane shows that nothing was
  found and the global still holds the two results of the earlier search.
\<close>

theorem empty_search_keeps_previous_results:
  "currentSearchResults
     (performSearch ''dogs'' (Search_data [])
        (performSearch ''cats'' (Search_data [''doc1'', ''img2'']) initial_window))
     = Some [''doc1'', ''img2'']
   \<and> searchResults
     (performSearch ''dogs'' (Search_data [])
        (performSearch ''cats'' (Search_data [''doc1'', ''img2'']) initial_window))
     = No_results"
  by (simp add: performSearch_def displaySearchResults_def initial_window_def trim_def is_space_def)

text \<open>
  A search that returns at least one result does overwrite the global.
\<close>

lemma nonempty_search_overwrites:
  "trim input \<noteq> [] \<Longrightarrow> results \<noteq> [] \<Longrightarrow>
   currentSearchResults (performSearch input (Search_data results) w) = Some results"
  by (simp add: performSearch_def displaySearchResults_def)

end
